theory Spec2Isabelle
  imports Main "HOL-Library.Word"
begin

unbundle bit_operations_syntax

section \<open>Machine model\<close>

text \<open>
  The breakpoint engine of thcrap targets 32-bit x86: \<open>size_t\<close> and pointers are 32-bit
  words, arithmetic on them wraps. Process memory is a store from addresses to bytes;
  multi-byte fields are little-endian.
\<close>

type_synonym byte = "8 word"
type_synonym size_t = "32 word"
type_synonym addr = "32 word"
type_synonym memory = "addr \<Rightarrow> byte"

definition read32 :: "memory \<Rightarrow> addr \<Rightarrow> size_t" where
  "read32 m a =
     ucast (m a) OR push_bit 8 (ucast (m (a + 1))) OR
     push_bit 16 (ucast (m (a + 2))) OR push_bit 24 (ucast (m (a + 3)))"

definition write32 :: "memory \<Rightarrow> addr \<Rightarrow> size_t \<Rightarrow> memory" where
  "write32 m a v =
     m(a := ucast v, a + 1 := ucast (drop_bit 8 v),
       a + 2 := ucast (drop_bit 16 v), a + 3 := ucast (drop_bit 24 v))"

text \<open>\<open>memmove\<close> reads the whole source block before it writes: overlap is allowed.\<close>

definition memmove :: "memory \<Rightarrow> addr \<Rightarrow> addr \<Rightarrow> size_t \<Rightarrow> memory" where
  "memmove m dst src n = (\<lambda>a. if a - dst < n then m (src + (a - dst)) else m a)"

definition memset :: "memory \<Rightarrow> addr \<Rightarrow> byte \<Rightarrow> size_t \<Rightarrow> memory" where
  "memset m dst c n = (\<lambda>a. if a - dst < n then c else m a)"

text \<open>Writing a byte buffer into memory (\<open>memcpy\<close> from a buffer held outside the store).\<close>

definition write_bytes :: "memory \<Rightarrow> addr \<Rightarrow> byte list \<Rightarrow> memory" where
  "write_bytes m dst bs = (\<lambda>a. if unat (a - dst) < length bs then bs ! unat (a - dst) else m a)"

definition CALL_LEN :: size_t where
  "CALL_LEN = 4 + 1"

definition x86_CALL_NEAR_REL32 :: byte where "x86_CALL_NEAR_REL32 = 0xE8"
definition x86_JMP_NEAR_REL32 :: byte where "x86_JMP_NEAR_REL32 = 0xE9"
definition x86_NOP :: byte where "x86_NOP = 0x90"
definition x86_INT3 :: byte where "x86_INT3 = 0xCC"

datatype fault = AccessViolation | HeapOverflow | StackBufferOverrun

section \<open>Breakpoint registry model\<close>

datatype json =
    JNull | JTrue | JFalse | JInteger int | JString string
  | JArray "json list" | JObject "(string \<times> json) list"

fun json_is_object :: "json option \<Rightarrow> bool" where
  "json_is_object (Some (JObject kvs)) = True"
| "json_is_object _ = False"

fun json_object_get :: "json option \<Rightarrow> string \<Rightarrow> json option" where
  "json_object_get (Some (JObject kvs)) key = map_of kvs key"
| "json_object_get _ key = None"

text \<open>
  A \<open>json_t*\<close> is a \<open>json option\<close>, \<open>None\<close> being the null pointer. A breakpoint
  handler receives the register snapshot by reference and the breakpoint's configuration;
  it may write anywhere in memory and returns an \<open>int\<close>.
\<close>

type_synonym BreakpointFunc_t = "memory \<Rightarrow> addr \<Rightarrow> json option \<Rightarrow> 32 word \<times> memory"

datatype hackpoint_addr_type = RAW_ADDR | NULL_ADDR | INVALID_ADDR

record hackpoint_addr_t =
  type :: hackpoint_addr_type
  raw :: addr

record breakpoint_local_t =
  name :: string
  cavesize :: size_t
  json_obj :: "json option"
  func :: "BreakpointFunc_t option"
  addr :: "hackpoint_addr_t list"

section \<open>Runtime dispatcher\<close>

text \<open>
  The declaration of \<open>x86_reg_t\<close> is not part of the sources at hand; its size and the
  offsets of the two fields the dispatcher touches are parameters.
\<close>

record x86_reg_layout =
  sizeof_x86_reg_t :: size_t
  offsetof_esp :: size_t
  offsetof_retaddr :: size_t

definition breakpoint_process ::
  "x86_reg_layout \<Rightarrow> breakpoint_local_t \<Rightarrow> size_t \<Rightarrow> addr \<Rightarrow> memory \<Rightarrow> fault + size_t \<times> memory" where
  "breakpoint_process L bp cave_addr regs m =
     (let esp_prev = read32 m (regs + offsetof_esp L) in
      case func bp of
        None \<Rightarrow> Inl AccessViolation
      | Some f \<Rightarrow>
          (let (cave_exec, m1) = f m regs (json_obj bp);
               m2 = (if cave_exec \<noteq> 0
                     then write32 m1 (regs + offsetof_retaddr L) cave_addr
                     else m1);
               esp = read32 m2 (regs + offsetof_esp L)
           in if esp_prev \<noteq> esp
              then (let esp_diff = esp - esp_prev
                    in Inr (esp_diff, memmove m2 (regs + esp_diff) regs (sizeof_x86_reg_t L)))
              else Inr (0, m2)))"

section \<open>Code generator: relocation fix-up\<close>

definition cave_fix :: "memory \<Rightarrow> addr \<Rightarrow> addr \<Rightarrow> memory" where
  "cave_fix m cave bp_addr =
     (if m cave = x86_CALL_NEAR_REL32 \<or> m cave = x86_JMP_NEAR_REL32
      then (let dist_old = read32 m (cave + 1);
                dist_new = dist_old + bp_addr - cave
            in write32 m (cave + 1) dist_new)
      else m)"

section \<open>Construction of a breakpoint description\<close>

text \<open>
  The expression evaluator and the address parser are external to the sources at hand;
  \<open>breakpoint_from_json\<close> is parameterised by them. \<open>json_object_get_eval_int\<close> returns
  its status together with the value it stores through its output pointer.
\<close>

datatype jeval_flags = JEVAL_DEFAULT | JEVAL_STRICT

datatype jeval_error_t = JEVAL_SUCCESS | JEVAL_NULL_PTR | JEVAL_ERROR nat

record json_eval =
  json_object_get_eval_bool_default :: "json option \<Rightarrow> string \<Rightarrow> bool \<Rightarrow> jeval_flags \<Rightarrow> bool"
  json_object_get_eval_int :: "json option \<Rightarrow> string \<Rightarrow> jeval_flags \<Rightarrow> jeval_error_t \<times> size_t"
  hackpoint_addrs_from_json :: "json option \<Rightarrow> hackpoint_addr_t list option"

definition breakpoint_from_json ::
  "json_eval \<Rightarrow> string \<Rightarrow> json option \<Rightarrow> breakpoint_local_t \<Rightarrow> bool \<times> breakpoint_local_t" where
  "breakpoint_from_json X nm inp out =
     (if \<not> json_is_object inp then (False, out)
      else if json_object_get_eval_bool_default X inp ''ignore'' False JEVAL_DEFAULT then (False, out)
      else (case json_object_get_eval_int X inp ''cavesize'' JEVAL_STRICT of
              (JEVAL_ERROR e, v) \<Rightarrow> (False, out)
            | (JEVAL_NULL_PTR, v) \<Rightarrow> (False, out)
            | (JEVAL_SUCCESS, v) \<Rightarrow>
                if v < CALL_LEN then (False, out)
                else (case hackpoint_addrs_from_json X (json_object_get inp ''addr'') of
                        None \<Rightarrow> (False, out)
                      | Some addrs \<Rightarrow>
                          (True, out\<lparr>name := nm, cavesize := v, json_obj := inp,
                                     func := None, addr := addrs\<rparr>))))"

section \<open>Setup: layout planning and code generation\<close>

text \<open>
  What \<open>breakpoints_apply\<close> takes from outside this file: the handler registry, the
  region check, the pointers the two \<open>VirtualAlloc\<close> calls return (0 when the
  allocation fails), the trampoline template \<open>bp_entry\<close> with its size and its three patch
  offsets, the addresses of \<open>breakpoint_process\<close> and of the elements of the
  \<open>breakpoints\<close> array, the initial patch-buffer size, and the contents of freshly
  allocated heap bytes.
\<close>

record platform =
  func_get :: "string \<Rightarrow> BreakpointFunc_t option"
  VirtualCheckRegion :: "addr \<Rightarrow> size_t \<Rightarrow> bool"
  cave_source_alloc :: addr
  cave_call_alloc :: addr
  bp_entry_addr :: addr
  bp_entry_size :: size_t
  bp_entry_cave :: size_t
  bp_entry_local :: size_t
  bp_entry_call :: size_t
  breakpoint_process_addr :: addr
  breakpoints_addr :: "nat \<Rightarrow> addr"
  BINHACK_BUFSIZE_MIN :: size_t
  heap_uninit :: "nat \<Rightarrow> byte"

text \<open>
  Modelled from the spec: \<open>eval_hackpoint_addr\<close>, absent from the sources. The candidate
  addresses are an ordered sequence whose unresolved or invalid entries are tagged and
  skipped, never removed; an entry may be null, meaning "not applicable to this build".
  A tagged entry evaluates to the null address, any other to its resolved address. The
  end of the sequence, where the source function returns false, is the end of the list.
\<close>

definition eval_hackpoint_addr :: "hackpoint_addr_t \<Rightarrow> addr" where
  "eval_hackpoint_addr a = (if type a = RAW_ADDR then raw a else 0)"

text \<open>
  Modelled from the spec: \<open>AlignUpToMultipleOf2\<close>, absent from the sources; the spec's
  \<open>align16\<close> is its instance at 16. It rounds up to a multiple of a power of two.
\<close>

definition AlignUpToMultipleOf2 :: "size_t \<Rightarrow> size_t \<Rightarrow> size_t" where
  "AlignUpToMultipleOf2 x n = (x + (n - 1)) AND NOT (n - 1)"

text \<open>
  \<open>breakpoint_local_init\<close> builds the registry key in the stack array \<open>bp_key\<close> of
  \<open>strlen("BP_") + key_len + 1\<close> bytes, \<open>key_len\<close> being the length of the name up to its
  first \<open>#\<close>. For a name that does not start with \<open>codecave:\<close> it writes \<open>BP_\<close>, the
  first \<open>key_len\<close> characters of the name and the terminator; for a \<open>codecave:\<close> name it
  copies the whole name with \<open>strcpy\<close>, suffix included. \<open>bp_key_bytes\<close> is the number of
  bytes written; writing more than the array holds overruns the stack buffer.
\<close>

definition bp_key_len :: "string \<Rightarrow> nat" where
  "bp_key_len key = length (takeWhile (\<lambda>c. c \<noteq> CHR ''#'') key)"

definition bp_key_size :: "string \<Rightarrow> nat" where
  "bp_key_size key = length ''BP_'' + bp_key_len key + 1"

definition bp_key_bytes :: "string \<Rightarrow> nat" where
  "bp_key_bytes key =
     (if take 9 key \<noteq> ''codecave:'' then length (''BP_'' @ take (bp_key_len key) key) + 1
      else length key + 1)"

definition bp_key_overrun :: "string \<Rightarrow> bool" where
  "bp_key_overrun key = (bp_key_size key < bp_key_bytes key)"

definition bp_key_of :: "string \<Rightarrow> string" where
  "bp_key_of key =
     (let key_len = bp_key_len key
      in if take 9 key \<noteq> ''codecave:'' then ''BP_'' @ take key_len key else key)"

definition breakpoint_local_init ::
  "platform \<Rightarrow> breakpoint_local_t \<Rightarrow> fault + bool \<times> breakpoint_local_t" where
  "breakpoint_local_init E bp_local =
     (if bp_key_overrun (name bp_local) then Inl StackBufferOverrun
      else (let f = func_get E (bp_key_of (name bp_local))
            in Inr (f \<noteq> None, bp_local\<lparr>func := f\<rparr>)))"

text \<open>
  First pass, inner loop: one description's candidate addresses. The state is
  \<open>cur_valid_addrs\<close> and \<open>sourcecaves_total_size\<close>; entries that fail the region check
  are tagged in place.
\<close>

fun layout_addrs ::
  "platform \<Rightarrow> size_t \<Rightarrow> hackpoint_addr_t list \<Rightarrow> size_t \<Rightarrow> size_t
    \<Rightarrow> hackpoint_addr_t list \<times> size_t \<times> size_t" where
  "layout_addrs E csize [] cur_valid_addrs sourcecaves_total_size = ([], cur_valid_addrs, sourcecaves_total_size)"
| "layout_addrs E csize (cur_addr # rest) cur_valid_addrs sourcecaves_total_size =
     (let a = eval_hackpoint_addr cur_addr in
      if a = 0 then
        (case layout_addrs E csize rest cur_valid_addrs sourcecaves_total_size of
           (rest', r) \<Rightarrow> (cur_addr # rest', r))
      else if \<not> VirtualCheckRegion E a csize then
        (case layout_addrs E csize rest cur_valid_addrs sourcecaves_total_size of
           (rest', r) \<Rightarrow> (cur_addr\<lparr>type := INVALID_ADDR\<rparr> # rest', r))
      else
        (case layout_addrs E csize rest (cur_valid_addrs + 1)
                (sourcecaves_total_size + AlignUpToMultipleOf2 (csize + CALL_LEN) 16) of
           (rest', r) \<Rightarrow> (cur_addr # rest', r)))"

text \<open>
  First pass, outer loop. The state is \<open>sourcecaves_total_size\<close>,
  \<open>valid_breakpoint_count\<close> and \<open>total_valid_addrs\<close>; the result also holds the
  descriptions as the pass leaves them and the array \<open>breakpoint_total_size\<close>. The pass
  ends at the first description whose key overruns \<open>bp_key\<close>.
\<close>

fun layout_pass ::
  "platform \<Rightarrow> breakpoint_local_t list \<Rightarrow> size_t \<times> size_t \<times> size_t
    \<Rightarrow> fault + breakpoint_local_t list \<times> size_t list \<times> size_t \<times> size_t \<times> size_t" where
  "layout_pass E [] st = Inr ([], [], st)"
| "layout_pass E (b # rest) (sourcecaves_total_size, valid_breakpoint_count, total_valid_addrs) =
     (case breakpoint_local_init E b of
        Inl e \<Rightarrow> Inl e
      | Inr (False, cur) \<Rightarrow>
          (case layout_pass E rest (sourcecaves_total_size, valid_breakpoint_count, total_valid_addrs) of
             Inl e \<Rightarrow> Inl e
           | Inr (rest', sizes, st') \<Rightarrow> Inr (cur # rest', 0 # sizes, st'))
      | Inr (True, cur) \<Rightarrow>
          (case layout_addrs E (cavesize cur) (addr cur) 0 sourcecaves_total_size of
             (addrs', cur_valid_addrs, total') \<Rightarrow>
               if cur_valid_addrs = 0 then
                 (case layout_pass E rest (total', valid_breakpoint_count, total_valid_addrs) of
                    Inl e \<Rightarrow> Inl e
                  | Inr (rest', sizes, st') \<Rightarrow> Inr (cur\<lparr>addr := addrs'\<rparr> # rest', 0 # sizes, st'))
               else
                 (case layout_pass E rest
                         (total', valid_breakpoint_count + 1, total_valid_addrs + cur_valid_addrs) of
                    Inl e \<Rightarrow> Inl e
                  | Inr (rest', sizes, st') \<Rightarrow>
                      Inr (cur\<lparr>addr := addrs'\<rparr> # rest',
                           AlignUpToMultipleOf2 (cavesize cur + CALL_LEN) 16 # sizes, st'))))"

definition callcaves_total_size :: "platform \<Rightarrow> size_t \<Rightarrow> size_t" where
  "callcaves_total_size E total_valid_addrs = total_valid_addrs * bp_entry_size E"

text \<open>
  The loop that fills the call cave with copies of the trampoline template compares
  wrapping pointers, so nothing in the code bounds its iterations: not returning is
  \<open>None\<close>. Writing through the pointer of a failed allocation is an access violation.
\<close>

partial_function (option) callcave_fill_loop ::
  "platform \<Rightarrow> memory \<Rightarrow> addr \<Rightarrow> addr \<Rightarrow> (fault + memory) option" where
  "callcave_fill_loop E m callcave_fill callcave_fill_end =
     (if callcave_fill < callcave_fill_end then
        (if cave_call_alloc E = 0 then Some (Inl AccessViolation)
         else callcave_fill_loop E
                (memmove m callcave_fill (bp_entry_addr E) (bp_entry_size E))
                (callcave_fill + bp_entry_size E) callcave_fill_end)
      else Some (Inr m))"

text \<open>
  The patch buffer \<open>asm_buf\<close> is a heap block, held as the list of its bytes; a write past
  its end is a heap overflow. \<open>malloc\<close> and \<open>realloc\<close> are taken to succeed.
\<close>

definition le32 :: "size_t \<Rightarrow> byte list" where
  "le32 v = [ucast v, ucast (drop_bit 8 v), ucast (drop_bit 16 v), ucast (drop_bit 24 v)]"

definition buf_write :: "byte list \<Rightarrow> nat \<Rightarrow> byte list \<Rightarrow> fault + byte list" where
  "buf_write buf off bs =
     (if off + length bs \<le> length buf
      then Inr (take off buf @ bs @ drop (off + length bs) buf)
      else Inl HeapOverflow)"

definition asm_buf_init :: "platform \<Rightarrow> fault + byte list" where
  "asm_buf_init E =
     (let asm_buf = map (heap_uninit E) [0 ..< unat (BINHACK_BUFSIZE_MIN E)] in
      case buf_write asm_buf 0 [x86_CALL_NEAR_REL32] of
        Inl e \<Rightarrow> Inl e
      | Inr asm_buf \<Rightarrow>
          if BINHACK_BUFSIZE_MIN E > CALL_LEN
          then buf_write asm_buf (unat CALL_LEN)
                 (replicate (unat (BINHACK_BUFSIZE_MIN E - CALL_LEN)) x86_NOP)
          else Inr asm_buf)"

text \<open>
  Growing the patch buffer for a description whose cave is larger than the buffer:
  \<open>realloc\<close> to \<open>cavesize\<close> bytes, then \<open>memset\<close> from the old end with the length
  \<open>current_asm_buf_size - cavesize\<close>, computed in \<open>size_t\<close>.
\<close>

definition asm_buf_grow :: "platform \<Rightarrow> size_t \<Rightarrow> byte list \<times> size_t \<Rightarrow> fault + byte list \<times> size_t" where
  "asm_buf_grow E csize b =
     (case b of (asm_buf, current_asm_buf_size) \<Rightarrow>
        if csize > current_asm_buf_size then
          (let asm_buf' = take (unat csize) asm_buf
                            @ map (heap_uninit E) [length asm_buf ..< unat csize]
           in case buf_write asm_buf' (unat current_asm_buf_size)
                     (replicate (unat (current_asm_buf_size - csize)) x86_NOP) of
                Inl e \<Rightarrow> Inl e
              | Inr asm_buf'' \<Rightarrow> Inr (asm_buf'', csize))
        else Inr (asm_buf, current_asm_buf_size))"

text \<open>
  The trace of the second pass: one entry per call of \<open>PatchRegion\<close>, with the target
  address, the two cave slots of the iteration and the bytes installed at the target.
\<close>

record patch_site =
  site_addr :: addr
  site_sourcecave :: addr
  site_callcave :: addr
  site_code :: "byte list"

record render_state =
  mem :: memory
  sourcecave_p :: addr
  callcave_p :: addr
  asm_buf :: "byte list"
  current_asm_buf_size :: size_t
  patched :: "patch_site list"

text \<open>
  Modelled from the spec: \<open>PatchRegion\<close>, absent from the sources, is the patch sink; called
  with no expected previous bytes it overwrites the given number of bytes at the given
  address with the caller's bytes.
\<close>

definition PatchRegion :: "memory \<Rightarrow> addr \<Rightarrow> byte list \<Rightarrow> size_t \<Rightarrow> memory" where
  "PatchRegion m a buf n = write_bytes m a (take (unat n) buf)"

text \<open>
  Second pass, body of the inner loop for a non-null address. \<open>i\<close> is the index of the
  description \<open>cur\<close>, \<open>total_size\<close> is \<open>breakpoint_total_size[i]\<close>. The first writes of
  the body go through \<open>callcave_p\<close> and \<open>sourcecave_p\<close>: they are access violations when
  the region they point into was not allocated. \<open>memcpy\<close> is taken with the meaning of
  \<open>memmove\<close>.
\<close>

definition render_site ::
  "platform \<Rightarrow> nat \<Rightarrow> breakpoint_local_t \<Rightarrow> size_t \<Rightarrow> addr \<Rightarrow> render_state
    \<Rightarrow> fault \<times> patch_site list + render_state" where
  "render_site E i cur total_size a s =
     (if cave_call_alloc E = 0 \<or> cave_source_alloc E = 0 then Inl (AccessViolation, patched s)
      else
        (let m1 = write32 (mem s) (callcave_p s + bp_entry_cave E) (sourcecave_p s);
             m2 = write32 m1 (callcave_p s + bp_entry_local E) (breakpoints_addr E i);
             m3 = write32 m2 (callcave_p s + bp_entry_call E)
                    (breakpoint_process_addr E - (callcave_p s + bp_entry_call E) - 4);
             bp_dist = callcave_p s - (a + CALL_LEN)
         in case buf_write (asm_buf s) 1 (le32 bp_dist) of
              Inl e \<Rightarrow> Inl (e, patched s)
            | Inr buf \<Rightarrow>
                (let m4 = memmove m3 (sourcecave_p s) a (cavesize cur);
                     m5 = cave_fix m4 (sourcecave_p s) a;
                     cave_dist = a - (sourcecave_p s + CALL_LEN);
                     m6 = m5(sourcecave_p s + cavesize cur := x86_JMP_NEAR_REL32);
                     m7 = write32 m6 (sourcecave_p s + cavesize cur + 1) cave_dist;
                     m8 = PatchRegion m7 a buf (cavesize cur)
                 in Inr (s\<lparr>mem := m8,
                            sourcecave_p := sourcecave_p s + total_size,
                            callcave_p := callcave_p s + bp_entry_size E,
                            asm_buf := buf,
                            patched := patched s @
                              [\<lparr>site_addr = a, site_sourcecave = sourcecave_p s,
                                site_callcave = callcave_p s,
                                site_code = take (unat (cavesize cur)) buf\<rparr>]\<rparr>))))"

fun render_addrs ::
  "platform \<Rightarrow> nat \<Rightarrow> breakpoint_local_t \<Rightarrow> size_t \<Rightarrow> hackpoint_addr_t list \<Rightarrow> render_state
    \<Rightarrow> fault \<times> patch_site list + render_state" where
  "render_addrs E i cur total_size [] s = Inr s"
| "render_addrs E i cur total_size (cur_addr # rest) s =
     (let a = eval_hackpoint_addr cur_addr in
      if a = 0 then render_addrs E i cur total_size rest s
      else (case render_site E i cur total_size a s of
              Inl e \<Rightarrow> Inl e
            | Inr s' \<Rightarrow> render_addrs E i cur total_size rest s'))"

text \<open>Second pass, outer loop, over the descriptions and \<open>breakpoint_total_size\<close>.\<close>

fun render_pass ::
  "platform \<Rightarrow> nat \<Rightarrow> breakpoint_local_t list \<Rightarrow> size_t list \<Rightarrow> render_state
    \<Rightarrow> fault \<times> patch_site list + render_state" where
  "render_pass E i (cur # rest) (total_size # sizes) s =
     (if total_size \<noteq> 0 then
        (case asm_buf_grow E (cavesize cur) (asm_buf s, current_asm_buf_size s) of
           Inl e \<Rightarrow> Inl (e, patched s)
         | Inr (buf, sz) \<Rightarrow>
             (case render_addrs E i cur total_size (addr cur)
                     (s\<lparr>asm_buf := buf, current_asm_buf_size := sz\<rparr>) of
                Inl e \<Rightarrow> Inl e
              | Inr s' \<Rightarrow> render_pass E (Suc i) rest sizes s'))
      else render_pass E (Suc i) rest sizes s)"
| "render_pass E i _ _ s = Inr s"

text \<open>
  The result of a setup pass that returns: the returned \<open>int\<close>, the memory, the trace
  of installed patches, the two regions that were allocated and made executable (with
  their sizes), and the descriptions as the first pass leaves them.
\<close>

record apply_result =
  ret :: "32 word"
  mem_out :: memory
  installed :: "patch_site list"
  caves :: "(addr \<times> size_t) list"
  breakpoints_out :: "breakpoint_local_t list"

text \<open>
  \<open>breakpoints\<close> is \<open>None\<close> for a null array pointer; \<open>bp_count\<close> is the length of the
  array. The outcome is \<open>None\<close> when the pass does not return, a fault with the patches
  installed before it, or the result.
\<close>

definition breakpoints_apply ::
  "platform \<Rightarrow> breakpoint_local_t list option \<Rightarrow> memory
    \<Rightarrow> (fault \<times> patch_site list + apply_result) option" where
  "breakpoints_apply E breakpoints m =
     (case breakpoints of
        None \<Rightarrow> Some (Inr \<lparr>ret = 0, mem_out = m, installed = [], caves = [], breakpoints_out = []\<rparr>)
      | Some bps \<Rightarrow>
          (let bp_count = (of_nat (length bps) :: size_t) in
           if bp_count = 0
           then Some (Inr \<lparr>ret = 0, mem_out = m, installed = [], caves = [], breakpoints_out = bps\<rparr>)
           else
             (case layout_pass E bps (0, 0, 0) of
                Inl e \<Rightarrow> Some (Inl (e, []))
              | Inr (bps', breakpoint_total_size, sourcecaves_total_size, valid_breakpoint_count,
                  total_valid_addrs) \<Rightarrow>
                  if total_valid_addrs = 0
                  then Some (Inr \<lparr>ret = 0, mem_out = m, installed = [], caves = [],
                                  breakpoints_out = bps'\<rparr>)
                  else
                    (let cave_source = cave_source_alloc E in
                     if cave_source = 0 \<and> sourcecaves_total_size \<noteq> 0
                     then Some (Inl (AccessViolation, []))
                     else
                       (let m1 = memset m cave_source x86_INT3 sourcecaves_total_size;
                            cave_call = cave_call_alloc E
                        in case callcave_fill_loop E m1 cave_call
                                  (cave_call + callcaves_total_size E total_valid_addrs) of
                             None \<Rightarrow> None
                           | Some (Inl e) \<Rightarrow> Some (Inl (e, []))
                           | Some (Inr m2) \<Rightarrow>
                               (case asm_buf_init E of
                                  Inl e \<Rightarrow> Some (Inl (e, []))
                                | Inr buf \<Rightarrow>
                                    (case render_pass E 0 bps' breakpoint_total_size
                                            \<lparr>mem = m2, sourcecave_p = cave_source,
                                             callcave_p = cave_call, asm_buf = buf,
                                             current_asm_buf_size = BINHACK_BUFSIZE_MIN E,
                                             patched = []\<rparr> of
                                       Inl e \<Rightarrow> Some (Inl e)
                                     | Inr s \<Rightarrow>
                                         Some (Inr \<lparr>ret = bp_count - valid_breakpoint_count,
                                                    mem_out = mem s,
                                                    installed = patched s,
                                                    caves = [(cave_source, sourcecaves_total_size),
                                                             (cave_call, callcaves_total_size E total_valid_addrs)],
                                                    breakpoints_out = bps'\<rparr>))))))))"

section \<open>The layout as the specification words it\<close>

text \<open>
  A PatchSite is a pair of an address and a description that survived validation. In
  the code the addresses of a description are looked at only once its handler has been
  found in the registry; an address then counts when it is not null and the region check
  succeeds for \<open>cavesize\<close> bytes.
\<close>

definition valid_addrs :: "platform \<Rightarrow> breakpoint_local_t \<Rightarrow> addr list" where
  "valid_addrs E bp =
     (if func_get E (bp_key_of (name bp)) = None then []
      else filter (\<lambda>a. a \<noteq> 0 \<and> VirtualCheckRegion E a (cavesize bp))
             (map eval_hackpoint_addr (addr bp)))"

definition patch_sites :: "platform \<Rightarrow> breakpoint_local_t list \<Rightarrow> (addr \<times> breakpoint_local_t) list" where
  "patch_sites E bps = concat (map (\<lambda>bp. map (\<lambda>a. (a, bp)) (valid_addrs E bp)) bps)"

text \<open>
  Validity without the handler lookup: the address is not null and the region check
  succeeds.
\<close>

definition checked_addrs :: "platform \<Rightarrow> breakpoint_local_t \<Rightarrow> addr list" where
  "checked_addrs E bp =
     filter (\<lambda>a. a \<noteq> 0 \<and> VirtualCheckRegion E a (cavesize bp))
       (map eval_hackpoint_addr (addr bp))"

definition checked_sites :: "platform \<Rightarrow> breakpoint_local_t list \<Rightarrow> (addr \<times> breakpoint_local_t) list" where
  "checked_sites E bps = concat (map (\<lambda>bp. map (\<lambda>a. (a, bp)) (checked_addrs E bp)) bps)"

definition align16 :: "size_t \<Rightarrow> size_t" where
  "align16 x = AlignUpToMultipleOf2 x 16"

definition slot_size :: "breakpoint_local_t \<Rightarrow> size_t" where
  "slot_size bp = align16 (cavesize bp + CALL_LEN)"

text \<open>
  The bytes of the patch for a target address and its call-cave slot: a near relative
  call into the slot, then no-ops up to the size of the initial patch buffer. A patch
  installs the first \<open>cavesize\<close> of them.
\<close>

definition call_patch :: "platform \<Rightarrow> addr \<Rightarrow> addr \<Rightarrow> byte list" where
  "call_patch E callcave a =
     x86_CALL_NEAR_REL32 # le32 (callcave - (a + CALL_LEN))
       @ replicate (unat (BINHACK_BUFSIZE_MIN E) - 5) x86_NOP"

text \<open>
  Slots laid out one after the other: the source-cave slot of a PatchSite starts where
  the slot of the previous one ends, and so does its call-cave slot.
\<close>

fun contiguous_sites ::
  "platform \<Rightarrow> addr \<Rightarrow> addr \<Rightarrow> (addr \<times> breakpoint_local_t) list \<Rightarrow> patch_site list" where
  "contiguous_sites E sp cp [] = []"
| "contiguous_sites E sp cp ((a, bp) # rest) =
     \<lparr>site_addr = a, site_sourcecave = sp, site_callcave = cp,
      site_code = take (unat (cavesize bp)) (call_patch E cp a)\<rparr>
     # contiguous_sites E (sp + slot_size bp) (cp + bp_entry_size E) rest"

section \<open>Relations used in the proofs\<close>

text \<open>
  What the first pass leaves for a description \<open>bp\<close>: the description \<open>bp'\<close> with the
  same cave size, whose entries that still evaluate to a non-null address are the valid
  addresses of \<open>bp\<close>, and the entry \<open>sz\<close> of \<open>breakpoint_total_size\<close>.
\<close>

definition desc_rel :: "platform \<Rightarrow> breakpoint_local_t \<Rightarrow> breakpoint_local_t \<times> size_t \<Rightarrow> bool" where
  "desc_rel E bp p = (case p of (bp', sz) \<Rightarrow>
       cavesize bp' = cavesize bp
     \<and> sz = (if (of_nat (length (valid_addrs E bp)) :: size_t) \<noteq> 0 then slot_size bp else 0)
     \<and> (func_get E (bp_key_of (name bp)) \<noteq> None \<longrightarrow>
          filter (\<lambda>a. a \<noteq> 0) (map eval_hackpoint_addr (addr bp')) = valid_addrs E bp))"

text \<open>
  The shape of the patch buffer while no description needs it grown: the call opcode,
  four displacement bytes, no-ops up to the initial size.
\<close>

definition asm_buf_ok :: "platform \<Rightarrow> byte list \<Rightarrow> bool" where
  "asm_buf_ok E buf =
     (\<exists>u. length u = 4 \<and> buf = x86_CALL_NEAR_REL32 # u @ replicate (unat (BINHACK_BUFSIZE_MIN E) - 5) x86_NOP)"

section \<open>A concrete setting\<close>

text \<open>
  A platform, an evaluator and three descriptions on which the theorems below are
  instantiated: the handlers of \<open>first\<close>, \<open>second\<close> and \<open>third\<close> are registered, the
  host's code lies between \<open>0x400000\<close> and \<open>0x4FFFFF\<close>, the initial patch buffer has 16
  bytes and the register snapshot is laid out in \<open>PUSHAD\<close> order.
\<close>

definition example_layout :: x86_reg_layout where
  "example_layout = \<lparr>sizeof_x86_reg_t = 40, offsetof_esp = 16, offsetof_retaddr = 36\<rparr>"

definition example_platform :: platform where
  "example_platform =
     \<lparr>func_get = (\<lambda>k. if k = ''BP_first'' \<or> k = ''BP_second'' \<or> k = ''BP_third''
                       then Some (\<lambda>m r j. (1, m)) else None),
      VirtualCheckRegion = (\<lambda>a n. 0x400000 \<le> a \<and> a \<le> 0x4FFFFF),
      cave_source_alloc = 0x10000,
      cave_call_alloc = 0x20000,
      bp_entry_addr = 0x600000,
      bp_entry_size = 32,
      bp_entry_cave = 3,
      bp_entry_local = 8,
      bp_entry_call = 13,
      breakpoint_process_addr = 0x601000,
      breakpoints_addr = (\<lambda>i. 0x700000 + 20 * of_nat i),
      BINHACK_BUFSIZE_MIN = 16,
      heap_uninit = (\<lambda>i. 0)\<rparr>"

definition example_bp_first :: breakpoint_local_t where
  "example_bp_first =
     \<lparr>name = ''first'', cavesize = 5, json_obj = None, func = None,
      addr = [\<lparr>type = RAW_ADDR, raw = 0x401000\<rparr>]\<rparr>"

definition example_bp_second :: breakpoint_local_t where
  "example_bp_second =
     \<lparr>name = ''second'', cavesize = 6, json_obj = None, func = None,
      addr = [\<lparr>type = RAW_ADDR, raw = 0x900000\<rparr>, \<lparr>type = NULL_ADDR, raw = 0\<rparr>]\<rparr>"

definition example_bp_third :: breakpoint_local_t where
  "example_bp_third =
     \<lparr>name = ''third#1'', cavesize = 7, json_obj = None, func = None,
      addr = [\<lparr>type = RAW_ADDR, raw = 0x402000\<rparr>]\<rparr>"

definition example_bp_unregistered :: breakpoint_local_t where
  "example_bp_unregistered =
     \<lparr>name = ''fourth'', cavesize = 5, json_obj = None, func = None,
      addr = [\<lparr>type = RAW_ADDR, raw = 0x403000\<rparr>]\<rparr>"

definition example_bp_codecave :: breakpoint_local_t where
  "example_bp_codecave =
     \<lparr>name = ''codecave:a#12345'', cavesize = 5, json_obj = None, func = None,
      addr = [\<lparr>type = NULL_ADDR, raw = 0\<rparr>]\<rparr>"

definition example_bp_large :: breakpoint_local_t where
  "example_bp_large =
     \<lparr>name = ''first'', cavesize = 17, json_obj = None, func = None,
      addr = [\<lparr>type = RAW_ADDR, raw = 0x401000\<rparr>]\<rparr>"

definition example_eval :: json_eval where
  "example_eval =
     \<lparr>json_object_get_eval_bool_default =
        (\<lambda>j k d fl. case json_object_get j k of
                       Some JTrue \<Rightarrow> True | Some JFalse \<Rightarrow> False | _ \<Rightarrow> d),
      json_object_get_eval_int =
        (\<lambda>j k fl. case json_object_get j k of
                     None \<Rightarrow> (JEVAL_NULL_PTR, 0)
                   | Some (JInteger n) \<Rightarrow> (JEVAL_SUCCESS, word_of_int n)
                   | _ \<Rightarrow> (JEVAL_ERROR 2, 0)),
      hackpoint_addrs_from_json =
        (\<lambda>j. case j of
                Some (JInteger n) \<Rightarrow> Some [\<lparr>type = RAW_ADDR, raw = word_of_int n\<rparr>]
              | _ \<Rightarrow> None)\<rparr>"

definition example_out :: breakpoint_local_t where
  "example_out = \<lparr>name = [], cavesize = 0, json_obj = None, func = None, addr = []\<rparr>"

section \<open>Memory lemmas\<close>

lemma addr_distinct:
  "(a::addr) + 1 \<noteq> a" "a + 2 \<noteq> a" "a + 3 \<noteq> a" "a + 2 \<noteq> a + 1" "a + 3 \<noteq> a + 1" "a + 3 \<noteq> a + 2"
  "a \<noteq> a + 1" "a \<noteq> a + 2" "a \<noteq> a + 3" "a + 1 \<noteq> a + 2" "a + 1 \<noteq> a + 3" "a + 2 \<noteq> a + 3"
  by simp_all

lemma read32_write32: "read32 (write32 m a v) a = v"
  unfolding read32_def write32_def
  apply (simp add: addr_distinct)
  apply (rule bit_word_eqI)
  apply (auto simp: bit_simps)
  subgoal for n by (cases "n < 24") auto
  done

lemma write32_other: "a' \<notin> {a, a + 1, a + 2, a + 3} \<Longrightarrow> write32 m a v a' = m a'"
  unfolding write32_def by auto

lemma write32_other': "4 \<le> a' - a \<Longrightarrow> write32 m a v a' = m a'"
proof (rule write32_other)
  assume h: "4 \<le> a' - a"
  have "a' - a \<notin> {0, 1, 2, 3}" using h by (auto simp: word_le_nat_alt)
  then show "a' \<notin> {a, a + 1, a + 2, a + 3}" by (auto simp: algebra_simps)
qed

lemma memmove_dst: "i < n \<Longrightarrow> memmove m dst src n (dst + i) = m (src + i)"
  by (simp add: memmove_def)

lemma memmove_other: "\<not> a - dst < n \<Longrightarrow> memmove m dst src n a = m a"
  by (simp add: memmove_def)

lemma read32_cong: "(\<And>i. i < 4 \<Longrightarrow> m (a + i) = m' (a' + i)) \<Longrightarrow> read32 m a = read32 m' a'"
proof -
  assume h: "\<And>i. i < 4 \<Longrightarrow> m (a + i) = m' (a' + i)"
  have "m a = m' a'" "m (a + 1) = m' (a' + 1)" "m (a + 2) = m' (a' + 2)" "m (a + 3) = m' (a' + 3)"
    using h[of 0] h[of 1] h[of 2] h[of 3] by (simp_all add: word_less_nat_alt)
  then show ?thesis by (simp add: read32_def)
qed

lemma read32_write32_disj:
  assumes "4 \<le> a' - a" "4 \<le> a - a'"
  shows "read32 (write32 m a v) a' = read32 m a'"
proof (rule read32_cong)
  fix i :: addr assume i: "i < 4"
  have "4 \<le> (a' + i) - a"
    using assms i by unat_arith
  then show "write32 m a v (a' + i) = m (a' + i)" by (rule write32_other')
qed

section \<open>Runtime dispatcher: the stack adjustment and the resume address\<close>

text \<open>
  C1: \<open>breakpoint_process\<close> reads the snapshot's stack pointer before it calls the
  handler. When the stack pointer the handler leaves equals that value, the function
  returns 0 and the memory is the one left by the handler and the resume-address update.
  Otherwise it returns the difference of the two, computed in \<open>size_t\<close>, and the whole
  snapshot is found that many bytes further: every byte of the structure is at its old
  address plus the difference, and no byte outside the moved block changes.
\<close>

theorem breakpoint_process_stack_adjust:
  assumes fn: "func bp = Some f"
    and run: "f m regs (json_obj bp) = (cave_exec, m1)"
    and lay: "4 \<le> offsetof_retaddr L - offsetof_esp L" "4 \<le> offsetof_esp L - offsetof_retaddr L"
    and m2: "m2 = (if cave_exec \<noteq> 0 then write32 m1 (regs + offsetof_retaddr L) cave_addr else m1)"
    and esp_prev: "esp_prev = read32 m (regs + offsetof_esp L)"
    and esp: "esp = read32 m1 (regs + offsetof_esp L)"
  shows "(esp = esp_prev \<longrightarrow> breakpoint_process L bp cave_addr regs m = Inr (0, m2)) \<and>
         (esp \<noteq> esp_prev \<longrightarrow>
            (\<exists>m3. breakpoint_process L bp cave_addr regs m = Inr (esp - esp_prev, m3) \<and>
                  (\<forall>i. i < sizeof_x86_reg_t L \<longrightarrow> m3 (regs + (esp - esp_prev) + i) = m2 (regs + i)) \<and>
                  (\<forall>a. \<not> a - (regs + (esp - esp_prev)) < sizeof_x86_reg_t L \<longrightarrow> m3 a = m2 a)))"
proof -
  have e2: "read32 m2 (regs + offsetof_esp L) = esp"
    using lay by (simp add: m2 esp read32_write32_disj)
  show ?thesis
    using fn run e2
    by (auto simp: breakpoint_process_def Let_def m2[symmetric] esp_prev memmove_def)
qed

theorem breakpoint_process_stack_adjust_witness:
  "\<exists>m3. breakpoint_process \<lparr>sizeof_x86_reg_t = 40, offsetof_esp = 16, offsetof_retaddr = 36\<rparr>
          \<lparr>name = ''x'', cavesize = 5, json_obj = None,
           func = Some (\<lambda>m r j. (1, write32 m (r + 16) 8)), addr = []\<rparr>
          0x5000 0x1000 (\<lambda>_. 0) = Inr (8, m3) \<and> m3 (0x1000 + 8 + 37) = 0x50"
proof -
  let ?L = "\<lparr>sizeof_x86_reg_t = 40, offsetof_esp = 16, offsetof_retaddr = 36\<rparr>"
  let ?f = "\<lambda>(m::memory) (r::addr) (j::json option). (1::32 word, write32 m (r + 16) 8)"
  let ?bp = "\<lparr>name = ''x'', cavesize = 5, json_obj = None, func = Some ?f, addr = []\<rparr>"
  let ?m1 = "write32 (\<lambda>_. 0) (0x1000 + 16) 8"
  let ?m2 = "write32 ?m1 (0x1000 + 36) 0x5000"
  have e0: "read32 (\<lambda>_. 0) a = 0" for a by (simp add: read32_def)
  have "(8 = (0::32 word) \<longrightarrow> breakpoint_process ?L ?bp 0x5000 0x1000 (\<lambda>_. 0) = Inr (0, ?m2)) \<and>
        (8 \<noteq> (0::32 word) \<longrightarrow>
            (\<exists>m3. breakpoint_process ?L ?bp 0x5000 0x1000 (\<lambda>_. 0) = Inr (8 - 0, m3) \<and>
                  (\<forall>i. i < sizeof_x86_reg_t ?L \<longrightarrow> m3 (0x1000 + (8 - 0) + i) = ?m2 (0x1000 + i)) \<and>
                  (\<forall>a. \<not> a - (0x1000 + (8 - 0)) < sizeof_x86_reg_t ?L \<longrightarrow> m3 a = ?m2 a)))"
    by (rule breakpoint_process_stack_adjust [where f = ?f and cave_exec = 1 and ?m1.0 = ?m1])
       (simp_all add: e0 read32_write32)
  then obtain m3 where r: "breakpoint_process ?L ?bp 0x5000 0x1000 (\<lambda>_. 0) = Inr (8, m3)"
    and mv: "\<forall>i. i < 40 \<longrightarrow> m3 (0x1000 + 8 + i) = ?m2 (0x1000 + i)"
    by auto
  have "m3 (0x1000 + 8 + 37) = ?m2 (0x1000 + 37)" using mv [rule_format, of 37] by simp
  also have "\<dots> = 0x50" by (simp add: write32_def)
  finally show ?thesis using r by blast
qed

text \<open>
  C3: when the handler's flag is nonzero, the resume-address field of the snapshot, read
  where \<open>breakpoint_process\<close> leaves the snapshot, is the address of the source-cave
  slot; when the flag is zero, the field holds what the handler left in it.
\<close>

theorem breakpoint_process_resume_address:
  assumes fn: "func bp = Some f"
    and run: "f m regs (json_obj bp) = (cave_exec, m1)"
    and fld: "unat (offsetof_retaddr L) + 4 \<le> unat (sizeof_x86_reg_t L)"
  shows "\<exists>esp_diff m3. breakpoint_process L bp cave_addr regs m = Inr (esp_diff, m3) \<and>
           (cave_exec \<noteq> 0 \<longrightarrow> read32 m3 (regs + esp_diff + offsetof_retaddr L) = cave_addr) \<and>
           (cave_exec = 0 \<longrightarrow> read32 m3 (regs + esp_diff + offsetof_retaddr L)
                                = read32 m1 (regs + offsetof_retaddr L))"
proof -
  define m2 where "m2 = (if cave_exec \<noteq> 0 then write32 m1 (regs + offsetof_retaddr L) cave_addr else m1)"
  have m2r: "read32 m2 (regs + offsetof_retaddr L)
               = (if cave_exec \<noteq> 0 then cave_addr else read32 m1 (regs + offsetof_retaddr L))"
    by (simp add: m2_def read32_write32)
  have mv: "read32 (memmove m2 (regs + d) regs (sizeof_x86_reg_t L)) (regs + d + offsetof_retaddr L)
              = read32 m2 (regs + offsetof_retaddr L)" for d
  proof (rule read32_cong)
    fix i :: addr assume i: "i < 4"
    have lt: "offsetof_retaddr L + i < sizeof_x86_reg_t L"
      using fld i by unat_arith
    have "memmove m2 (regs + d) regs (sizeof_x86_reg_t L) ((regs + d) + (offsetof_retaddr L + i))
            = m2 (regs + (offsetof_retaddr L + i))"
      using lt by (rule memmove_dst)
    then show "memmove m2 (regs + d) regs (sizeof_x86_reg_t L) (regs + d + offsetof_retaddr L + i)
                 = m2 (regs + offsetof_retaddr L + i)"
      by (simp add: add.assoc)
  qed
  show ?thesis
    using fn run m2r mv
    by (auto simp: breakpoint_process_def Let_def m2_def[symmetric])
qed

theorem breakpoint_process_resume_address_witness:
  "\<exists>d m3. breakpoint_process \<lparr>sizeof_x86_reg_t = 40, offsetof_esp = 16, offsetof_retaddr = 36\<rparr>
          \<lparr>name = ''x'', cavesize = 5, json_obj = None,
           func = Some (\<lambda>m r j. (1, write32 m (r + 16) (read32 m (r + 16) + 8))), addr = []\<rparr>
          0x5000 0x1000 (\<lambda>_. 0) = Inr (d, m3) \<and> read32 m3 (0x1000 + d + 36) = 0x5000"
  using breakpoint_process_resume_address
    [of "\<lparr>name = ''x'', cavesize = 5, json_obj = None,
           func = Some (\<lambda>m r j. (1, write32 m (r + 16) (read32 m (r + 16) + 8))), addr = []\<rparr>"
        "\<lambda>m r j. (1, write32 m (r + 16) (read32 m (r + 16) + 8))"
        "\<lambda>_. 0" "0x1000" 1 "write32 (\<lambda>_. 0) (0x1000 + 16) (read32 (\<lambda>_. 0) (0x1000 + 16) + 8)"
        "\<lparr>sizeof_x86_reg_t = 40, offsetof_esp = 16, offsetof_retaddr = 36\<rparr>"
        "0x5000"]
  by simp

section \<open>Relocation fix-up\<close>

text \<open>
  C2: when the first byte of the source-cave slot is \<open>0xE8\<close> or \<open>0xE9\<close>, \<open>cave_fix\<close>
  rewrites the displacement at offset 1 to the old displacement plus the original address
  minus the cave address, so that the cave address plus 5 plus the new displacement is
  the original address plus 5 plus the old displacement, and touches no byte outside
  these four; for any other first byte it changes no byte.
\<close>

theorem cave_fix_relocates:
  "(m cave = 0xE8 \<or> m cave = 0xE9 \<longrightarrow>
      read32 (cave_fix m cave bp_addr) (cave + 1) = read32 m (cave + 1) + bp_addr - cave \<and>
      cave + 5 + read32 (cave_fix m cave bp_addr) (cave + 1) = bp_addr + 5 + read32 m (cave + 1) \<and>
      (\<forall>a. 4 \<le> a - (cave + 1) \<longrightarrow> cave_fix m cave bp_addr a = m a)) \<and>
   (m cave \<noteq> 0xE8 \<and> m cave \<noteq> 0xE9 \<longrightarrow> cave_fix m cave bp_addr = m)"
  by (simp add: cave_fix_def Let_def x86_CALL_NEAR_REL32_def x86_JMP_NEAR_REL32_def
        read32_write32 write32_other')

theorem cave_fix_relocates_witness:
  "read32 (cave_fix ((\<lambda>_. 0)(0x2000 := 0xE8, 0x2001 := 0x10)) 0x2000 0x401000) 0x2001 = 0x3FF010 \<and>
   cave_fix ((\<lambda>_. 0)(0x2000 := 0x55, 0x2001 := 0x10)) 0x2000 0x401000 = (\<lambda>_. 0)(0x2000 := 0x55, 0x2001 := 0x10)"
  using cave_fix_relocates [of "(\<lambda>_. 0)(0x2000 := 0xE8, 0x2001 := 0x10)" "0x2000" "0x401000"]
        cave_fix_relocates [of "(\<lambda>_. 0)(0x2000 := 0x55, 0x2001 := 0x10)" "0x2000" "0x401000"]
  by (simp add: read32_def)

section \<open>Construction of a description\<close>

text \<open>
  C4, amended: \<open>breakpoint_from_json\<close> returns false and leaves \<open>out\<close> as it was when
  the configuration is not a JSON object, when its \<open>ignore\<close> key evaluates to true, when
  no \<open>cavesize\<close> is present, when the \<open>cavesize\<close> has an invalid type, when it is below
  \<open>CALL_LEN\<close>, or when no candidate address parses; in every other case it returns true
  and stores the name, the cavesize, the configuration reference and the address list
  (and a null handler) in \<open>out\<close>. It reads and writes no other description.
\<close>

theorem breakpoint_from_json_construction:
  assumes "json_object_get_eval_int X inp ''cavesize'' JEVAL_STRICT = (st, v)"
  shows "breakpoint_from_json X nm inp out =
     (if \<not> json_is_object inp
         \<or> json_object_get_eval_bool_default X inp ''ignore'' False JEVAL_DEFAULT
         \<or> st = JEVAL_NULL_PTR \<or> (\<exists>e. st = JEVAL_ERROR e) \<or> v < CALL_LEN
         \<or> hackpoint_addrs_from_json X (json_object_get inp ''addr'') = None
      then (False, out)
      else (True, out\<lparr>name := nm, cavesize := v, json_obj := inp, func := None,
                       addr := the (hackpoint_addrs_from_json X (json_object_get inp ''addr''))\<rparr>))"
  using assms
  by (cases st) (auto simp: breakpoint_from_json_def split: option.splits)

theorem breakpoint_from_json_construction_witness:
  "breakpoint_from_json example_eval ''first''
     (Some (JObject [(''cavesize'', JInteger 5), (''addr'', JInteger 0x401000)])) example_out
   = (True, \<lparr>name = ''first'', cavesize = 5,
             json_obj = Some (JObject [(''cavesize'', JInteger 5), (''addr'', JInteger 0x401000)]),
             func = None, addr = [\<lparr>type = RAW_ADDR, raw = 0x401000\<rparr>]\<rparr>)"
  using breakpoint_from_json_construction
    [of example_eval "Some (JObject [(''cavesize'', JInteger 5), (''addr'', JInteger 0x401000)])"
        JEVAL_SUCCESS 5 "''first''" example_out]
  by (simp add: example_eval_def example_out_def CALL_LEN_def)

text \<open>
  The claim C4 as stated fails: a configuration that is an object, with a well-typed
  \<open>cavesize\<close> of \<open>CALL_LEN\<close> bytes and an address that parses, is still rejected when its
  \<open>ignore\<close> key is true.
\<close>

theorem construction_rejects_ignored_counterexample:
  "json_is_object (Some (JObject [(''ignore'', JTrue), (''cavesize'', JInteger 5), (''addr'', JInteger 0x401000)]))
   \<and> json_object_get_eval_int example_eval
        (Some (JObject [(''ignore'', JTrue), (''cavesize'', JInteger 5), (''addr'', JInteger 0x401000)]))
        ''cavesize'' JEVAL_STRICT = (JEVAL_SUCCESS, 5)
   \<and> \<not> (5 :: size_t) < CALL_LEN
   \<and> hackpoint_addrs_from_json example_eval
        (json_object_get
           (Some (JObject [(''ignore'', JTrue), (''cavesize'', JInteger 5), (''addr'', JInteger 0x401000)]))
           ''addr'') \<noteq> None
   \<and> fst (breakpoint_from_json example_eval ''first''
        (Some (JObject [(''ignore'', JTrue), (''cavesize'', JInteger 5), (''addr'', JInteger 0x401000)]))
        example_out) = False"
  by (simp add: breakpoint_from_json_def example_eval_def CALL_LEN_def)

text \<open>
  C9: for a configuration object whose \<open>ignore\<close> key evaluates to true,
  \<open>breakpoint_from_json\<close> returns false and stores nothing, whatever the other fields
  hold.
\<close>

theorem breakpoint_from_json_ignore:
  assumes "json_is_object inp"
    and "json_object_get_eval_bool_default X inp ''ignore'' False JEVAL_DEFAULT"
  shows "breakpoint_from_json X nm inp out = (False, out)"
  using assms by (simp add: breakpoint_from_json_def)

theorem breakpoint_from_json_ignore_witness:
  "breakpoint_from_json example_eval ''first''
     (Some (JObject [(''ignore'', JTrue), (''cavesize'', JInteger 5), (''addr'', JInteger 0x401000)]))
     example_out = (False, example_out)"
  using breakpoint_from_json_ignore
    [of "Some (JObject [(''ignore'', JTrue), (''cavesize'', JInteger 5), (''addr'', JInteger 0x401000)])"
        example_eval "''first''" example_out]
  by (simp add: example_eval_def)

section \<open>The first pass\<close>

lemma eval_invalidated: "eval_hackpoint_addr (a\<lparr>type := INVALID_ADDR\<rparr>) = 0"
  by (simp add: eval_hackpoint_addr_def)

lemma layout_addrs_eq:
  "layout_addrs E cs as cv tot = (as', cv', tot') \<Longrightarrow>
     cv' = cv + of_nat (length (filter (\<lambda>a. a \<noteq> 0 \<and> VirtualCheckRegion E a cs) (map eval_hackpoint_addr as)))
   \<and> tot' = tot + of_nat (length (filter (\<lambda>a. a \<noteq> 0 \<and> VirtualCheckRegion E a cs) (map eval_hackpoint_addr as)))
                   * AlignUpToMultipleOf2 (cs + CALL_LEN) 16
   \<and> filter (\<lambda>a. a \<noteq> 0) (map eval_hackpoint_addr as')
       = filter (\<lambda>a. a \<noteq> 0 \<and> VirtualCheckRegion E a cs) (map eval_hackpoint_addr as)"
proof (induction as arbitrary: cv tot as' cv' tot')
  case Nil
  then show ?case by simp
next
  case (Cons x xs)
  show ?case
  proof (cases "eval_hackpoint_addr x = 0")
    case True
    with Cons.prems obtain r where
      r: "layout_addrs E cs xs cv tot = (r, cv', tot')" and as': "as' = x # r"
      by (auto simp: Let_def split: prod.splits)
    from Cons.IH[OF r] True as' show ?thesis by simp
  next
    case nz: False
    show ?thesis
    proof (cases "VirtualCheckRegion E (eval_hackpoint_addr x) cs")
      case False
      with nz Cons.prems obtain r where
        r: "layout_addrs E cs xs cv tot = (r, cv', tot')" and as': "as' = x\<lparr>type := INVALID_ADDR\<rparr> # r"
        by (auto simp: Let_def split: prod.splits)
      from Cons.IH[OF r] nz False as' show ?thesis by (simp add: eval_invalidated)
    next
      case True
      with nz Cons.prems obtain r where
        r: "layout_addrs E cs xs (cv + 1) (tot + AlignUpToMultipleOf2 (cs + CALL_LEN) 16) = (r, cv', tot')"
        and as': "as' = x # r"
        by (auto simp: Let_def split: prod.splits)
      from Cons.IH[OF r] nz True as' show ?thesis by (simp add: algebra_simps)
    qed
  qed
qed

lemma sum_sites_one:
  "sum_list (map (\<lambda>p. slot_size (snd p)) (map (\<lambda>a. (a, bp)) V)) = of_nat (length V) * slot_size bp"
  by (induction V) (simp_all add: algebra_simps)

lemma patch_sites_Cons_sum:
  "sum_list (map (\<lambda>p. slot_size (snd p)) (patch_sites E (b # rest)))
     = of_nat (length (valid_addrs E b)) * slot_size b
       + sum_list (map (\<lambda>p. slot_size (snd p)) (patch_sites E rest))"
  using sum_sites_one [of b "valid_addrs E b"] by (simp add: patch_sites_def)

lemma patch_sites_Cons_length:
  "length (patch_sites E (b # rest)) = length (valid_addrs E b) + length (patch_sites E rest)"
  by (simp add: patch_sites_def)

lemma layout_pass_eq:
  "layout_pass E bps (t, vb, tv) = Inr (bps', sizes, t', vb', tv') \<Longrightarrow>
     t' = t + sum_list (map (\<lambda>p. slot_size (snd p)) (patch_sites E bps))
   \<and> vb' = vb + of_nat (length (filter (\<lambda>bp. (of_nat (length (valid_addrs E bp)) :: size_t) \<noteq> 0) bps))
   \<and> tv' = tv + of_nat (length (patch_sites E bps))
   \<and> length bps' = length bps \<and> length sizes = length bps
   \<and> list_all2 (desc_rel E) bps (zip bps' sizes)"
proof (induction bps arbitrary: t vb tv bps' sizes t' vb' tv')
  case Nil
  then show ?case by (simp add: patch_sites_def)
next
  case (Cons b rest)
  have fit: "\<not> bp_key_overrun (name b)"
    using Cons.prems by (auto simp: breakpoint_local_init_def)
  show ?case
  proof (cases "func_get E (bp_key_of (name b)) = None")
    case True
    with Cons.prems obtain r sz where
      r: "layout_pass E rest (t, vb, tv) = Inr (r, sz, t', vb', tv')"
      and o: "bps' = b\<lparr>func := None\<rparr> # r" "sizes = 0 # sz"
      using fit by (auto simp: breakpoint_local_init_def Let_def split: prod.splits sum.splits)
    from Cons.IH[OF r] True o show ?thesis
      by (simp add: patch_sites_def valid_addrs_def desc_rel_def)
  next
    case False
    define cur where "cur = b\<lparr>func := func_get E (bp_key_of (name b))\<rparr>"
    have init: "breakpoint_local_init E b = Inr (True, cur)"
      using False fit by (simp add: breakpoint_local_init_def cur_def)
    obtain as' cva tota where la: "layout_addrs E (cavesize b) (addr b) 0 t = (as', cva, tota)"
      by (cases "layout_addrs E (cavesize b) (addr b) 0 t") auto
    have V: "valid_addrs E b = filter (\<lambda>a. a \<noteq> 0 \<and> VirtualCheckRegion E a (cavesize b)) (map eval_hackpoint_addr (addr b))"
      using False by (auto simp: valid_addrs_def)
    from layout_addrs_eq[OF la] have
      cva: "cva = of_nat (length (valid_addrs E b))"
      and tota: "tota = t + of_nat (length (valid_addrs E b)) * slot_size b"
      and flt: "filter (\<lambda>a. a \<noteq> 0) (map eval_hackpoint_addr as') = valid_addrs E b"
      by (simp_all add: V slot_size_def align16_def)
    note ps = patch_sites_Cons_sum patch_sites_Cons_length
    show ?thesis
    proof (cases "cva = 0")
      case True
      with Cons.prems init la obtain r sz where
        r: "layout_pass E rest (tota, vb, tv) = Inr (r, sz, t', vb', tv')"
        and o: "bps' = cur\<lparr>addr := as'\<rparr> # r" "sizes = 0 # sz"
        by (auto simp: cur_def split: prod.splits sum.splits)
      have z: "(of_nat (length (valid_addrs E b)) :: size_t) = 0" using True cva by simp
      from Cons.IH[OF r] o show ?thesis
        using z flt False
        by (simp add: ps tota desc_rel_def cur_def algebra_simps)
    next
      case nz: False
      with Cons.prems init la obtain r sz where
        r: "layout_pass E rest (tota, vb + 1, tv + cva) = Inr (r, sz, t', vb', tv')"
        and o: "bps' = cur\<lparr>addr := as'\<rparr> # r"
               "sizes = slot_size b # sz"
        by (auto simp: cur_def slot_size_def align16_def split: prod.splits sum.splits)
      have z: "(of_nat (length (valid_addrs E b)) :: size_t) \<noteq> 0" using nz cva by simp
      from Cons.IH[OF r] o show ?thesis
        using z flt False
        by (simp add: ps tota cva desc_rel_def cur_def algebra_simps)
    qed
  qed
qed

lemma layout_pass_returns:
  "\<forall>bp\<in>set bps. \<not> bp_key_overrun (name bp) \<Longrightarrow> \<exists>x. layout_pass E bps st = Inr x"
proof (induction bps arbitrary: st)
  case Nil
  show ?case by (cases st) auto
next
  case (Cons b rest)
  obtain t vb tv where st: "st = (t, vb, tv)" by (cases st) auto
  from Cons.prems have fit: "\<not> bp_key_overrun (name b)"
    and rest: "\<forall>bp\<in>set rest. \<not> bp_key_overrun (name bp)" by simp_all
  obtain as' cva tota where
    la: "layout_addrs E (cavesize b) (addr b) 0 t = (as', cva, tota)"
    by (cases "layout_addrs E (cavesize b) (addr b) 0 t") auto
  from Cons.IH [OF rest, of "(t, vb, tv)"] Cons.IH [OF rest, of "(tota, vb, tv)"]
       Cons.IH [OF rest, of "(tota, vb + 1, tv + cva)"]
  show ?case
    using fit la by (auto simp: st breakpoint_local_init_def Let_def split: bool.splits)
qed

lemma layout_pass_overrun:
  "\<exists>bp\<in>set bps. bp_key_overrun (name bp) \<Longrightarrow> layout_pass E bps st = Inl StackBufferOverrun"
proof (induction bps arbitrary: st)
  case Nil
  then show ?case by simp
next
  case (Cons b rest)
  obtain t vb tv where st: "st = (t, vb, tv)" by (cases st) auto
  show ?case
  proof (cases "bp_key_overrun (name b)")
    case True
    then show ?thesis by (simp add: st breakpoint_local_init_def)
  next
    case False
    with Cons.prems have "\<exists>bp\<in>set rest. bp_key_overrun (name bp)" by simp
    from Cons.IH [OF this] show ?thesis
      using False
      by (auto simp: st breakpoint_local_init_def Let_def split: prod.splits bool.splits)
  qed
qed

section \<open>The second pass\<close>

lemma unat_CALL_LEN: "unat CALL_LEN = 5"
  by (simp add: CALL_LEN_def)

lemma asm_buf_init_ok:
  assumes "CALL_LEN \<le> BINHACK_BUFSIZE_MIN E"
  shows "\<exists>buf. asm_buf_init E = Inr buf \<and> asm_buf_ok E buf"
proof -
  let ?B = "unat (BINHACK_BUFSIZE_MIN E)"
  let ?b0 = "map (heap_uninit E) [0 ..< ?B]"
  have B5: "5 \<le> ?B" using assms by (simp add: word_le_nat_alt unat_CALL_LEN)
  have w1: "buf_write ?b0 0 [x86_CALL_NEAR_REL32] = Inr (x86_CALL_NEAR_REL32 # drop 1 ?b0)"
    using B5 by (simp add: buf_write_def)
  let ?b1 = "x86_CALL_NEAR_REL32 # drop 1 ?b0"
  have len1: "length ?b1 = ?B" using B5 by simp
  show ?thesis
  proof (cases "BINHACK_BUFSIZE_MIN E > CALL_LEN")
    case True
    have u: "unat (BINHACK_BUFSIZE_MIN E - CALL_LEN) = ?B - 5"
      using assms by (simp add: unat_sub unat_CALL_LEN)
    have w2: "buf_write ?b1 (unat CALL_LEN) (replicate (unat (BINHACK_BUFSIZE_MIN E - CALL_LEN)) x86_NOP)
               = Inr (take 5 ?b1 @ replicate (?B - 5) x86_NOP)"
      using B5 by (simp add: buf_write_def u unat_CALL_LEN)
    have t5: "take 5 ?b1 = x86_CALL_NEAR_REL32 # take 4 (drop 1 ?b0)" by simp
    have "asm_buf_init E = Inr (x86_CALL_NEAR_REL32 # take 4 (drop 1 ?b0) @ replicate (?B - 5) x86_NOP)"
      unfolding asm_buf_init_def Let_def w1 using True w2 t5 by simp
    moreover have "length (take 4 (drop 1 ?b0)) = 4" using B5 by simp
    ultimately show ?thesis unfolding asm_buf_ok_def by blast
  next
    case False
    then have "?B = 5" using assms B5 by (simp add: word_less_nat_alt unat_CALL_LEN)
    then have "asm_buf_init E = Inr (x86_CALL_NEAR_REL32 # drop 1 ?b0 @ replicate (?B - 5) x86_NOP)"
      unfolding asm_buf_init_def Let_def w1 using False by simp
    moreover have "length (drop 1 ?b0) = 4" using \<open>?B = 5\<close> by simp
    ultimately show ?thesis unfolding asm_buf_ok_def by blast
  qed
qed

lemma buf_write_call:
  assumes "asm_buf_ok E buf"
  shows "buf_write buf 1 (le32 (cp - (a + CALL_LEN))) = Inr (call_patch E cp a)"
    and "asm_buf_ok E (call_patch E cp a)"
proof -
  from assms obtain u where u: "length u = 4"
    "buf = x86_CALL_NEAR_REL32 # u @ replicate (unat (BINHACK_BUFSIZE_MIN E) - 5) x86_NOP"
    unfolding asm_buf_ok_def by blast
  have l: "length (le32 d) = 4" for d by (simp add: le32_def)
  show "buf_write buf 1 (le32 (cp - (a + CALL_LEN))) = Inr (call_patch E cp a)"
    using u l by (simp add: buf_write_def call_patch_def)
  show "asm_buf_ok E (call_patch E cp a)"
    unfolding asm_buf_ok_def call_patch_def using l by blast
qed

lemma render_site_ok:
  assumes "cave_call_alloc E \<noteq> 0" "cave_source_alloc E \<noteq> 0" "asm_buf_ok E (asm_buf s)"
  shows "\<exists>s'. render_site E i cur ts a s = Inr s'
           \<and> patched s' = patched s @
                [\<lparr>site_addr = a, site_sourcecave = sourcecave_p s, site_callcave = callcave_p s,
                  site_code = take (unat (cavesize cur)) (call_patch E (callcave_p s) a)\<rparr>]
           \<and> sourcecave_p s' = sourcecave_p s + ts
           \<and> callcave_p s' = callcave_p s + bp_entry_size E
           \<and> asm_buf_ok E (asm_buf s')
           \<and> current_asm_buf_size s' = current_asm_buf_size s"
  using assms buf_write_call[OF assms(3), of "callcave_p s" a]
  by (simp add: render_site_def Let_def)

lemma contiguous_sites_append:
  "contiguous_sites E sp cp (xs @ ys)
     = contiguous_sites E sp cp xs
       @ contiguous_sites E (sp + sum_list (map (\<lambda>p. slot_size (snd p)) xs))
           (cp + of_nat (length xs) * bp_entry_size E) ys"
proof (induction xs arbitrary: sp cp)
  case Nil
  then show ?case by simp
next
  case (Cons x xs)
  obtain a bp where x: "x = (a, bp)" by (cases x)
  show ?case by (simp add: x Cons.IH algebra_simps)
qed

lemma render_addrs_ok:
  assumes al: "cave_call_alloc E \<noteq> 0" "cave_source_alloc E \<noteq> 0"
    and cs: "cavesize bp = cavesize cur" and ts: "ts = slot_size bp"
  shows "asm_buf_ok E (asm_buf s) \<Longrightarrow>
         \<exists>s'. render_addrs E i cur ts as s = Inr s'
           \<and> patched s' = patched s @ contiguous_sites E (sourcecave_p s) (callcave_p s)
                 (map (\<lambda>a. (a, bp)) (filter (\<lambda>a. a \<noteq> 0) (map eval_hackpoint_addr as)))
           \<and> sourcecave_p s' = sourcecave_p s
                 + of_nat (length (filter (\<lambda>a. a \<noteq> 0) (map eval_hackpoint_addr as))) * slot_size bp
           \<and> callcave_p s' = callcave_p s
                 + of_nat (length (filter (\<lambda>a. a \<noteq> 0) (map eval_hackpoint_addr as))) * bp_entry_size E
           \<and> asm_buf_ok E (asm_buf s')
           \<and> current_asm_buf_size s' = current_asm_buf_size s"
proof (induction as arbitrary: s)
  case Nil
  then show ?case by simp
next
  case (Cons x xs)
  show ?case
  proof (cases "eval_hackpoint_addr x = 0")
    case True
    with Cons.IH[OF Cons.prems] show ?thesis by simp
  next
    case False
    from render_site_ok[OF al Cons.prems, of i cur ts "eval_hackpoint_addr x"]
    obtain s1 where s1: "render_site E i cur ts (eval_hackpoint_addr x) s = Inr s1"
      and p1: "patched s1 = patched s @
                [\<lparr>site_addr = eval_hackpoint_addr x, site_sourcecave = sourcecave_p s,
                  site_callcave = callcave_p s,
                  site_code = take (unat (cavesize cur)) (call_patch E (callcave_p s) (eval_hackpoint_addr x))\<rparr>]"
      and q1: "sourcecave_p s1 = sourcecave_p s + ts" "callcave_p s1 = callcave_p s + bp_entry_size E"
      and ok1: "asm_buf_ok E (asm_buf s1)" and c1: "current_asm_buf_size s1 = current_asm_buf_size s"
      by blast
    from Cons.IH[OF ok1] obtain s' where
      r: "render_addrs E i cur ts xs s1 = Inr s'"
      and p: "patched s' = patched s1 @ contiguous_sites E (sourcecave_p s1) (callcave_p s1)
                 (map (\<lambda>a. (a, bp)) (filter (\<lambda>a. a \<noteq> 0) (map eval_hackpoint_addr xs)))"
      and q: "sourcecave_p s' = sourcecave_p s1
                 + of_nat (length (filter (\<lambda>a. a \<noteq> 0) (map eval_hackpoint_addr xs))) * slot_size bp"
             "callcave_p s' = callcave_p s1
                 + of_nat (length (filter (\<lambda>a. a \<noteq> 0) (map eval_hackpoint_addr xs))) * bp_entry_size E"
      and ok: "asm_buf_ok E (asm_buf s')" and c: "current_asm_buf_size s' = current_asm_buf_size s1"
      by blast
    have "render_addrs E i cur ts (x # xs) s = Inr s'"
      using False s1 r by simp
    then show ?thesis
      using False p p1 q q1 ok c c1 cs ts by (simp add: algebra_simps)
  qed
qed

lemma asm_buf_grow_small:
  "csize \<le> cur \<Longrightarrow> asm_buf_grow E csize (buf, cur) = Inr (buf, cur)"
  by (simp add: asm_buf_grow_def not_less [symmetric])

lemma valid_addrs_func: "valid_addrs E bp \<noteq> [] \<Longrightarrow> func_get E (bp_key_of (name bp)) \<noteq> None"
  by (auto simp: valid_addrs_def split: if_splits)

lemma patch_sites_Cons_drop: "valid_addrs E b = [] \<Longrightarrow> patch_sites E (b # rest) = patch_sites E rest"
  by (simp add: patch_sites_def)

lemma patch_sites_Cons: "patch_sites E (b # rest) = map (\<lambda>a. (a, b)) (valid_addrs E b) @ patch_sites E rest"
  by (simp add: patch_sites_def)

lemma sum_sites_comp:
  "sum_list (map ((\<lambda>p. slot_size (snd p)) \<circ> (\<lambda>a. (a, bp))) V) = of_nat (length V) * slot_size bp"
  by (induction V) (simp_all add: algebra_simps)

lemma render_pass_ok:
  assumes al: "cave_call_alloc E \<noteq> 0" "cave_source_alloc E \<noteq> 0"
  shows "list_all2 (desc_rel E) bps (zip bps' sizes) \<Longrightarrow> length bps' = length bps \<Longrightarrow>
         length sizes = length bps \<Longrightarrow> asm_buf_ok E (asm_buf s) \<Longrightarrow>
         current_asm_buf_size s = BINHACK_BUFSIZE_MIN E \<Longrightarrow>
         (\<forall>bp\<in>set bps. valid_addrs E bp \<noteq> [] \<longrightarrow>
            cavesize bp \<le> BINHACK_BUFSIZE_MIN E
            \<and> (of_nat (length (valid_addrs E bp)) :: size_t) \<noteq> 0 \<and> slot_size bp \<noteq> 0) \<Longrightarrow>
         \<exists>s'. render_pass E i bps' sizes s = Inr s'
           \<and> patched s' = patched s @ contiguous_sites E (sourcecave_p s) (callcave_p s) (patch_sites E bps)"
proof (induction bps arbitrary: bps' sizes s i)
  case Nil
  then show ?case by (simp add: patch_sites_def)
next
  case (Cons b rest)
  from Cons.prems(2,3) obtain c cs z zs where o: "bps' = c # cs" "sizes = z # zs"
    by (cases bps'; cases sizes) auto
  from Cons.prems(1) o have rel: "desc_rel E b (c, z)" and rest: "list_all2 (desc_rel E) rest (zip cs zs)"
    by simp_all
  from Cons.prems(2,3) o have ln: "length cs = length rest" "length zs = length rest" by simp_all
  from Cons.prems(6) have nd: "\<forall>bp\<in>set rest. valid_addrs E bp \<noteq> [] \<longrightarrow>
            cavesize bp \<le> BINHACK_BUFSIZE_MIN E
            \<and> (of_nat (length (valid_addrs E bp)) :: size_t) \<noteq> 0 \<and> slot_size bp \<noteq> 0"
    by simp
  from Cons.prems(6) have ndb: "valid_addrs E b \<noteq> [] \<Longrightarrow>
            cavesize b \<le> BINHACK_BUFSIZE_MIN E
            \<and> (of_nat (length (valid_addrs E b)) :: size_t) \<noteq> 0 \<and> slot_size b \<noteq> 0"
    by simp
  show ?case
  proof (cases "z = 0")
    case True
    have v: "valid_addrs E b = []"
    proof (rule ccontr)
      assume "valid_addrs E b \<noteq> []"
      from ndb[OF this] rel True show False by (simp add: desc_rel_def)
    qed
    from Cons.IH[OF rest ln Cons.prems(4,5) nd, of "Suc i"] True o v
    show ?thesis by (simp add: patch_sites_Cons_drop)
  next
    case False
    with rel have cnt: "(of_nat (length (valid_addrs E b)) :: size_t) \<noteq> 0" and z: "z = slot_size b"
      by (auto simp: desc_rel_def split: if_splits)
    from cnt have v: "valid_addrs E b \<noteq> []" by auto
    from rel valid_addrs_func[OF v] have
      cz: "cavesize c = cavesize b"
      and flt: "filter (\<lambda>a. a \<noteq> 0) (map eval_hackpoint_addr (addr c)) = valid_addrs E b"
      by (simp_all add: desc_rel_def)
    from ndb[OF v] cz have "cavesize c \<le> current_asm_buf_size s" by (simp add: Cons.prems(5))
    then have g: "asm_buf_grow E (cavesize c) (asm_buf s, current_asm_buf_size s) = Inr (asm_buf s, current_asm_buf_size s)"
      by (rule asm_buf_grow_small)
    from render_addrs_ok[OF al cz[symmetric] z Cons.prems(4), of i "addr c"] flt
    obtain s1 where r1: "render_addrs E i c z (addr c) s = Inr s1"
      and p1: "patched s1 = patched s @ contiguous_sites E (sourcecave_p s) (callcave_p s)
                 (map (\<lambda>a. (a, b)) (valid_addrs E b))"
      and q1: "sourcecave_p s1 = sourcecave_p s + of_nat (length (valid_addrs E b)) * slot_size b"
              "callcave_p s1 = callcave_p s + of_nat (length (valid_addrs E b)) * bp_entry_size E"
      and ok1: "asm_buf_ok E (asm_buf s1)"
      and c1: "current_asm_buf_size s1 = current_asm_buf_size s"
      by auto
    from Cons.IH[OF rest ln ok1 _ nd, of "Suc i"] c1 Cons.prems(5)
    obtain s' where r: "render_pass E (Suc i) cs zs s1 = Inr s'"
      and p: "patched s' = patched s1 @ contiguous_sites E (sourcecave_p s1) (callcave_p s1) (patch_sites E rest)"
      by auto
    have "render_pass E i bps' sizes s = Inr s'"
      using False o g r1 r by simp
    moreover have "patched s' = patched s @ contiguous_sites E (sourcecave_p s) (callcave_p s) (patch_sites E (b # rest))"
      using p p1 q1 by (simp add: patch_sites_Cons contiguous_sites_append sum_sites_comp)
    ultimately show ?thesis by simp
  qed
qed

lemma callcave_fill_loop_returns:
  "cave_call_alloc E \<noteq> 0 \<Longrightarrow> unat p + n * unat (bp_entry_size E) < 2 ^ 32 \<Longrightarrow>
   \<exists>m'. callcave_fill_loop E m p (p + of_nat n * bp_entry_size E) = Some (Inr m')"
proof (induction n arbitrary: m p)
  case 0
  show ?case by (subst callcave_fill_loop.simps) simp
next
  case (Suc n)
  have le: "unat (p + bp_entry_size E) \<le> unat p + unat (bp_entry_size E)"
    by (simp add: unat_word_ariths)
  have b: "unat (p + bp_entry_size E) + n * unat (bp_entry_size E) < 2 ^ 32"
    using Suc.prems(2) le by simp
  have e: "p + of_nat (Suc n) * bp_entry_size E = (p + bp_entry_size E) + of_nat n * bp_entry_size E"
    by (simp add: algebra_simps)
  show ?case
  proof (cases "p < p + of_nat (Suc n) * bp_entry_size E")
    case True
    have "callcave_fill_loop E m p (p + of_nat (Suc n) * bp_entry_size E)
            = callcave_fill_loop E (memmove m p (bp_entry_addr E) (bp_entry_size E))
                (p + bp_entry_size E) (p + of_nat (Suc n) * bp_entry_size E)"
      using True Suc.prems(1) by (subst callcave_fill_loop.simps) (simp del: of_nat_Suc)
    also have "\<dots> = callcave_fill_loop E (memmove m p (bp_entry_addr E) (bp_entry_size E))
                (p + bp_entry_size E) ((p + bp_entry_size E) + of_nat n * bp_entry_size E)"
      by (simp only: e)
    finally show ?thesis using Suc.IH[OF Suc.prems(1) b] by metis
  next
    case False
    then show ?thesis by (subst callcave_fill_loop.simps) (simp del: of_nat_Suc)
  qed
qed

section \<open>Word arithmetic of the layout\<close>

lemma and_not_15_nz:
  fixes y :: size_t
  assumes "16 \<le> y"
  shows "y AND NOT 15 \<noteq> 0"
proof
  assume z: "y AND NOT 15 = 0"
  have "(y AND 15) OR (y AND NOT 15) = y AND (15 OR NOT 15)"
    by (rule bit.conj_disj_distrib [symmetric])
  also have "(15 :: size_t) OR NOT 15 = -1" by (rule bit.disj_cancel_right)
  finally have "(y AND 15) OR (y AND NOT 15) = y" by simp
  then have "y AND 15 = y" using z by simp
  moreover have "y AND 15 \<le> 15" by (rule word_and_le1)
  ultimately have "y \<le> 15" by simp
  then have "unat y \<le> 15" by (simp add: word_le_nat_alt)
  moreover have "16 \<le> unat y" using assms by (simp add: word_le_nat_alt)
  ultimately show False by simp
qed

lemma slot_size_nz:
  assumes "unat (cavesize bp) + 20 < 2 ^ 32"
  shows "slot_size bp \<noteq> 0"
proof -
  have "unat (cavesize bp + 20) = unat (cavesize bp) + unat (20 :: size_t)"
    using assms by (subst unat_add_lem [symmetric]) simp
  then have "unat (16 :: size_t) \<le> unat (cavesize bp + 20)" by simp
  then have "16 \<le> cavesize bp + 20" by (simp only: word_le_nat_alt)
  then have "(cavesize bp + 20) AND NOT 15 \<noteq> 0" by (rule and_not_15_nz)
  then show ?thesis
    by (simp add: slot_size_def align16_def AlignUpToMultipleOf2_def CALL_LEN_def add.assoc)
qed

lemma valid_addrs_le_sites:
  "bp \<in> set bps \<Longrightarrow> length (valid_addrs E bp) \<le> length (patch_sites E bps)"
  by (induction bps) (auto simp: patch_sites_Cons_length)

lemma unat_of_nat32: "n < 2 ^ 32 \<Longrightarrow> unat (of_nat n :: size_t) = n"
  by (rule of_nat_inverse [OF refl]) simp

lemma of_nat_length_nz:
  assumes "n < 2 ^ 32"
  shows "(of_nat n :: size_t) \<noteq> 0 \<longleftrightarrow> n \<noteq> 0"
proof
  assume "(of_nat n :: size_t) \<noteq> 0"
  then show "n \<noteq> 0" by (rule contrapos_nn) simp
next
  assume "n \<noteq> 0"
  then have "unat (of_nat n :: size_t) \<noteq> 0"
    by (simp only: unat_of_nat32 [OF assms] not_False_eq_True)
  then show "(of_nat n :: size_t) \<noteq> 0" by (rule contrapos_nn) simp
qed

section \<open>The setup pass as a whole\<close>

lemma patch_sites_nonempty_bps: "patch_sites E bps \<noteq> [] \<Longrightarrow> bps \<noteq> []"
  by (auto simp: patch_sites_def)

lemma filter_valid_cong:
  assumes "length (patch_sites E bps) < 2 ^ 32"
  shows "filter (\<lambda>bp. (of_nat (length (valid_addrs E bp)) :: size_t) \<noteq> 0) bps
           = filter (\<lambda>bp. valid_addrs E bp \<noteq> []) bps"
proof (rule filter_cong [OF refl])
  fix bp assume "bp \<in> set bps"
  then have "length (valid_addrs E bp) < 2 ^ 32"
    using valid_addrs_le_sites [of bp bps E] assms by simp
  then show "((of_nat (length (valid_addrs E bp)) :: size_t) \<noteq> 0) = (valid_addrs E bp \<noteq> [])"
    by (simp add: of_nat_length_nz)
qed

lemma breakpoints_apply_layout:
  assumes "layout_pass E bps (0, 0, 0) = Inr (bps', sizes, t, vb, tv)"
    and "(of_nat (length bps) :: size_t) \<noteq> 0" and "tv \<noteq> 0"
    and "\<not> (cave_source_alloc E = 0 \<and> t \<noteq> 0)"
  shows "breakpoints_apply E (Some bps) m =
     (case callcave_fill_loop E (memset m (cave_source_alloc E) x86_INT3 t) (cave_call_alloc E)
             (cave_call_alloc E + callcaves_total_size E tv) of
        None \<Rightarrow> None
      | Some (Inl e) \<Rightarrow> Some (Inl (e, []))
      | Some (Inr m2) \<Rightarrow>
          (case asm_buf_init E of
             Inl e \<Rightarrow> Some (Inl (e, []))
           | Inr buf \<Rightarrow>
               (case render_pass E 0 bps' sizes
                       \<lparr>mem = m2, sourcecave_p = cave_source_alloc E,
                        callcave_p = cave_call_alloc E, asm_buf = buf,
                        current_asm_buf_size = BINHACK_BUFSIZE_MIN E, patched = []\<rparr> of
                  Inl e \<Rightarrow> Some (Inl e)
                | Inr s \<Rightarrow>
                    Some (Inr \<lparr>ret = of_nat (length bps) - vb, mem_out = mem s,
                               installed = patched s,
                               caves = [(cave_source_alloc E, t),
                                        (cave_call_alloc E, callcaves_total_size E tv)],
                               breakpoints_out = bps'\<rparr>))))"
  using assms by (auto simp: breakpoints_apply_def Let_def)

lemma breakpoints_apply_ok:
  assumes fits: "\<forall>bp\<in>set bps. \<not> bp_key_overrun (name bp)"
    and len: "length bps < 2 ^ 32"
    and ne: "patch_sites E bps \<noteq> []"
    and N: "length (patch_sites E bps) < 2 ^ 32"
    and al: "cave_call_alloc E \<noteq> 0" "cave_source_alloc E \<noteq> 0"
    and nowrap: "unat (cave_call_alloc E) + length (patch_sites E bps) * unat (bp_entry_size E) < 2 ^ 32"
    and B: "CALL_LEN \<le> BINHACK_BUFSIZE_MIN E" "unat (BINHACK_BUFSIZE_MIN E) + 20 < 2 ^ 32"
    and small: "\<forall>bp\<in>set bps. valid_addrs E bp \<noteq> [] \<longrightarrow> cavesize bp \<le> BINHACK_BUFSIZE_MIN E"
  shows "\<exists>m' bps'. breakpoints_apply E (Some bps) m =
           Some (Inr \<lparr>ret = of_nat (length bps)
                          - of_nat (length (filter (\<lambda>bp. valid_addrs E bp \<noteq> []) bps)),
                      mem_out = m',
                      installed = contiguous_sites E (cave_source_alloc E) (cave_call_alloc E)
                                    (patch_sites E bps),
                      caves = [(cave_source_alloc E,
                                sum_list (map (\<lambda>p. slot_size (snd p)) (patch_sites E bps))),
                               (cave_call_alloc E,
                                of_nat (length (patch_sites E bps)) * bp_entry_size E)],
                      breakpoints_out = bps'\<rparr>)"
proof -
  obtain bps' sizes t vb tv where lp: "layout_pass E bps (0, 0, 0) = Inr (bps', sizes, t, vb, tv)"
    using layout_pass_returns [OF fits, of E "(0, 0, 0)"] by auto
  from layout_pass_eq[OF lp] have
    t: "t = sum_list (map (\<lambda>p. slot_size (snd p)) (patch_sites E bps))"
    and vb: "vb = of_nat (length (filter (\<lambda>bp. (of_nat (length (valid_addrs E bp)) :: size_t) \<noteq> 0) bps))"
    and tv: "tv = of_nat (length (patch_sites E bps))"
    and ln: "length bps' = length bps" "length sizes = length bps"
    and rel: "list_all2 (desc_rel E) bps (zip bps' sizes)"
    by simp_all
  have tvnz: "tv \<noteq> 0" using ne N by (simp add: tv of_nat_length_nz)
  have cnt: "(of_nat (length bps) :: size_t) \<noteq> 0"
    using patch_sites_nonempty_bps[OF ne] len by (simp add: of_nat_length_nz)
  have vb': "vb = of_nat (length (filter (\<lambda>bp. valid_addrs E bp \<noteq> []) bps))"
    by (simp only: vb filter_valid_cong[OF N])
  obtain m2 where fill:
    "callcave_fill_loop E (memset m (cave_source_alloc E) x86_INT3 t) (cave_call_alloc E)
       (cave_call_alloc E + callcaves_total_size E tv) = Some (Inr m2)"
    using callcave_fill_loop_returns[OF al(1) nowrap] by (auto simp: callcaves_total_size_def tv)
  obtain buf where buf: "asm_buf_init E = Inr buf" and ok: "asm_buf_ok E buf"
    using asm_buf_init_ok[OF B(1)] by blast
  let ?s = "\<lparr>mem = m2, sourcecave_p = cave_source_alloc E, callcave_p = cave_call_alloc E,
             asm_buf = buf, current_asm_buf_size = BINHACK_BUFSIZE_MIN E, patched = []\<rparr>"
  have nd: "\<forall>bp\<in>set bps. valid_addrs E bp \<noteq> [] \<longrightarrow>
            cavesize bp \<le> BINHACK_BUFSIZE_MIN E
            \<and> (of_nat (length (valid_addrs E bp)) :: size_t) \<noteq> 0 \<and> slot_size bp \<noteq> 0"
  proof (intro ballI impI conjI)
    fix bp assume bp: "bp \<in> set bps" and v: "valid_addrs E bp \<noteq> []"
    from small bp v show c: "cavesize bp \<le> BINHACK_BUFSIZE_MIN E" by blast
    have "length (valid_addrs E bp) < 2 ^ 32"
      using valid_addrs_le_sites[OF bp, of E] N by simp
    then show "(of_nat (length (valid_addrs E bp)) :: size_t) \<noteq> 0"
      using v by (simp add: of_nat_length_nz)
    have "unat (cavesize bp) \<le> unat (BINHACK_BUFSIZE_MIN E)" using c by (simp add: word_le_nat_alt)
    then have "unat (cavesize bp) + 20 < 2 ^ 32" using B(2) by simp
    then show "slot_size bp \<noteq> 0" by (rule slot_size_nz)
  qed
  obtain s' where rp: "render_pass E 0 bps' sizes ?s = Inr s'"
    and ps: "patched s' = contiguous_sites E (cave_source_alloc E) (cave_call_alloc E) (patch_sites E bps)"
    using render_pass_ok[OF al rel ln, of ?s 0] ok nd by auto
  have "breakpoints_apply E (Some bps) m =
          Some (Inr \<lparr>ret = of_nat (length bps) - vb, mem_out = mem s', installed = patched s',
                     caves = [(cave_source_alloc E, t), (cave_call_alloc E, callcaves_total_size E tv)],
                     breakpoints_out = bps'\<rparr>)"
    using al(2) by (simp add: breakpoints_apply_layout[OF lp cnt tvnz] fill buf rp)
  then show ?thesis
    by (simp add: vb' ps t tv callcaves_total_size_def)
qed

lemma breakpoints_apply_none:
  assumes fits: "\<forall>bp\<in>set bps. \<not> bp_key_overrun (name bp)"
    and e: "patch_sites E bps = []"
  shows "\<exists>bps'. breakpoints_apply E (Some bps) m =
      Some (Inr \<lparr>ret = 0, mem_out = m, installed = [], caves = [], breakpoints_out = bps'\<rparr>)"
proof -
  obtain bps' sizes t vb tv where lp: "layout_pass E bps (0, 0, 0) = Inr (bps', sizes, t, vb, tv)"
    using layout_pass_returns [OF fits, of E "(0, 0, 0)"] by auto
  from layout_pass_eq[OF lp] e have "tv = 0" by simp
  then show ?thesis using lp by (simp add: breakpoints_apply_def Let_def)
qed

lemma breakpoints_apply_null_alloc:
  assumes fits: "\<forall>bp\<in>set bps. \<not> bp_key_overrun (name bp)"
    and len: "length bps < 2 ^ 32"
    and ne: "patch_sites E bps \<noteq> []"
    and N: "length (patch_sites E bps) < 2 ^ 32"
    and nul: "cave_source_alloc E = 0 \<and> sum_list (map (\<lambda>p. slot_size (snd p)) (patch_sites E bps)) \<noteq> 0
              \<or> cave_call_alloc E = 0 \<and> callcaves_total_size E (of_nat (length (patch_sites E bps))) \<noteq> 0"
  shows "breakpoints_apply E (Some bps) m = Some (Inl (AccessViolation, []))"
proof -
  obtain bps' sizes t vb tv where lp: "layout_pass E bps (0, 0, 0) = Inr (bps', sizes, t, vb, tv)"
    using layout_pass_returns [OF fits, of E "(0, 0, 0)"] by auto
  from layout_pass_eq[OF lp] have
    t: "t = sum_list (map (\<lambda>p. slot_size (snd p)) (patch_sites E bps))"
    and tv: "tv = of_nat (length (patch_sites E bps))"
    by simp_all
  have tvnz: "tv \<noteq> 0" using ne N by (simp add: tv of_nat_length_nz)
  have cnt: "(of_nat (length bps) :: size_t) \<noteq> 0"
    using patch_sites_nonempty_bps[OF ne] len by (simp add: of_nat_length_nz)
  show ?thesis
  proof (cases "cave_source_alloc E = 0 \<and> t \<noteq> 0")
    case True
    then show ?thesis using lp cnt tvnz by (simp add: breakpoints_apply_def Let_def)
  next
    case False
    with nul t tv have c: "cave_call_alloc E = 0" and z: "callcaves_total_size E tv \<noteq> 0"
      by auto
    have lt: "(0 :: addr) < 0 + callcaves_total_size E tv" using z by (simp add: word_neq_0_conv)
    have "callcave_fill_loop E mm 0 (0 + callcaves_total_size E tv) = Some (Inl AccessViolation)" for mm
      using lt c by (subst callcave_fill_loop.simps) simp
    then show ?thesis
      by (simp add: breakpoints_apply_layout[OF lp cnt tvnz False] c)
  qed
qed


lemma breakpoints_apply_overrun:
  assumes "\<exists>bp\<in>set bps. bp_key_overrun (name bp)" and "length bps < 2 ^ 32"
  shows "breakpoints_apply E (Some bps) m = Some (Inl (StackBufferOverrun, []))"
proof -
  from assms(1) have "bps \<noteq> []" by auto
  then have cnt: "(of_nat (length bps) :: size_t) \<noteq> 0"
    using assms(2) by (simp add: of_nat_length_nz)
  show ?thesis
    using cnt layout_pass_overrun [OF assms(1), of E "(0, 0, 0)"]
    by (simp add: breakpoints_apply_def Let_def)
qed

section \<open>Slots as numbers\<close>

lemma unat_sum_list:
  "sum_list (map (\<lambda>x. unat (g x)) xs) < 2 ^ 32 \<Longrightarrow>
   unat (sum_list (map g xs) :: size_t) = sum_list (map (\<lambda>x. unat (g x)) xs)"
proof (induction xs)
  case Nil
  then show ?case by simp
next
  case (Cons x xs)
  from Cons.prems have r: "sum_list (map (\<lambda>x. unat (g x)) xs) < 2 ^ 32" by simp
  have "unat (g x) + unat (sum_list (map g xs)) < 2 ^ LENGTH(32)"
    using Cons.prems by (simp add: Cons.IH [OF r])
  then have "unat (g x + sum_list (map g xs)) = unat (g x) + unat (sum_list (map g xs))"
    by (simp only: unat_add_lem)
  then show ?case by (simp add: Cons.IH [OF r])
qed

lemma sum_take_le:
  fixes f :: "'a \<Rightarrow> nat"
  shows "sum_list (map f (take k xs)) \<le> sum_list (map f xs)"
proof -
  have "sum_list (map f xs) = sum_list (map f (take k xs)) + sum_list (map f (drop k xs))"
    by (metis append_take_drop_id map_append sum_list_append)
  then show ?thesis by simp
qed

lemma sum_take_Suc:
  fixes f :: "'a \<Rightarrow> nat"
  shows "j < length xs \<Longrightarrow> sum_list (map f (take (Suc j) xs)) = sum_list (map f (take j xs)) + f (xs ! j)"
  by (simp add: take_Suc_conv_app_nth)

lemma sum_take_mono:
  fixes f :: "'a \<Rightarrow> nat"
  assumes "i \<le> k"
  shows "sum_list (map f (take i xs)) \<le> sum_list (map f (take k xs))"
proof -
  have "take i xs = take i (take k xs)" using assms by (simp add: min_def)
  then show ?thesis using sum_take_le [of f i "take k xs"] by simp
qed

lemma slot_start_nat:
  assumes "unat sp + sum_list (map (\<lambda>p. unat (g p)) ps) < 2 ^ 32"
  shows "unat (sp + sum_list (map g (take k ps)) :: size_t)
           = unat sp + sum_list (map (\<lambda>p. unat (g p)) (take k ps))"
proof -
  have le: "sum_list (map (\<lambda>p. unat (g p)) (take k ps)) \<le> sum_list (map (\<lambda>p. unat (g p)) ps)"
    by (rule sum_take_le)
  then have "sum_list (map (\<lambda>p. unat (g p)) (take k ps)) < 2 ^ 32" using assms by simp
  then have u: "unat (sum_list (map g (take k ps))) = sum_list (map (\<lambda>p. unat (g p)) (take k ps))"
    by (rule unat_sum_list)
  have "unat sp + unat (sum_list (map g (take k ps))) < 2 ^ LENGTH(32)"
    using assms le by (simp add: u)
  then have "unat (sp + sum_list (map g (take k ps))) = unat sp + unat (sum_list (map g (take k ps)))"
    by (simp only: unat_add_lem)
  then show ?thesis by (simp add: u)
qed

lemma slots_disjoint_nat:
  fixes f :: "'a \<Rightarrow> nat"
  assumes "j < k" "k < length ps"
  shows "(b + sum_list (map f (take j ps))) + f (ps ! j) \<le> b + sum_list (map f (take k ps))"
proof -
  have "j < length ps" using assms by simp
  then have "sum_list (map f (take j ps)) + f (ps ! j) = sum_list (map f (take (Suc j) ps))"
    by (simp add: sum_take_Suc)
  also have "\<dots> \<le> sum_list (map f (take k ps))"
    using assms(1) by (intro sum_take_mono) simp
  finally show ?thesis by simp
qed

lemma slots_within_nat:
  fixes f :: "'a \<Rightarrow> nat"
  assumes "k < length ps"
  shows "(b + sum_list (map f (take k ps))) + f (ps ! k) \<le> b + sum_list (map f ps)"
proof -
  have "sum_list (map f (take k ps)) + f (ps ! k) = sum_list (map f (take (Suc k) ps))"
    using assms by (simp add: sum_take_Suc)
  also have "\<dots> \<le> sum_list (map f ps)" by (rule sum_take_le)
  finally show ?thesis by simp
qed

section \<open>Facts about the concrete setting\<close>

lemmas example_defs =
  example_platform_def example_bp_first_def example_bp_second_def example_bp_third_def
  example_bp_unregistered_def example_bp_large_def example_bp_codecave_def

lemma example_valid_addrs:
  "valid_addrs example_platform example_bp_first = [0x401000]"
  "valid_addrs example_platform example_bp_second = []"
  "valid_addrs example_platform example_bp_third = [0x402000]"
  "valid_addrs example_platform example_bp_unregistered = []"
  "valid_addrs example_platform example_bp_large = [0x401000]"
  "valid_addrs example_platform example_bp_codecave = []"
  by (simp_all add: valid_addrs_def example_defs bp_key_of_def bp_key_len_def eval_hackpoint_addr_def)

lemma example_key_fits:
  "\<not> bp_key_overrun (name example_bp_first)"
  "\<not> bp_key_overrun (name example_bp_second)"
  "\<not> bp_key_overrun (name example_bp_third)"
  "\<not> bp_key_overrun (name example_bp_unregistered)"
  "\<not> bp_key_overrun (name example_bp_large)"
  by (simp_all add: bp_key_overrun_def bp_key_size_def bp_key_bytes_def bp_key_len_def example_defs)

lemma example_key_overrun:
  "bp_key_size (name example_bp_codecave) = 14"
  "bp_key_bytes (name example_bp_codecave) = 17"
  "bp_key_overrun (name example_bp_codecave)"
  by (simp_all add: bp_key_overrun_def bp_key_size_def bp_key_bytes_def bp_key_len_def example_defs)

lemma example_slot_size:
  "slot_size example_bp_first = 16" "slot_size example_bp_third = 16" "slot_size example_bp_large = 32"
  by (simp_all add: slot_size_def align16_def AlignUpToMultipleOf2_def CALL_LEN_def example_defs)

lemma example_platform_simps:
  "cave_source_alloc example_platform = 0x10000"
  "cave_call_alloc example_platform = 0x20000"
  "bp_entry_size example_platform = 32"
  "BINHACK_BUFSIZE_MIN example_platform = 16"
  by (simp_all add: example_platform_def)

lemma example_cavesize:
  "cavesize example_bp_first = 5" "cavesize example_bp_second = 6" "cavesize example_bp_third = 7"
  "cavesize example_bp_large = 17"
  by (simp_all add: example_defs)

lemma example_patch_sites:
  "patch_sites example_platform [example_bp_first, example_bp_second, example_bp_third]
     = [(0x401000, example_bp_first), (0x402000, example_bp_third)]"
  "patch_sites example_platform [example_bp_first] = [(0x401000, example_bp_first)]"
  "patch_sites example_platform [example_bp_large] = [(0x401000, example_bp_large)]"
  "patch_sites example_platform [example_bp_unregistered, example_bp_second] = []"
  by (simp_all add: patch_sites_def example_valid_addrs)

section \<open>Slots by index\<close>

lemma contiguous_sites_length: "length (contiguous_sites E sp cp ps) = length ps"
  by (induction E sp cp ps rule: contiguous_sites.induct) simp_all

lemma contiguous_sites_nth:
  "k < length ps \<Longrightarrow>
   contiguous_sites E sp cp ps ! k =
     \<lparr>site_addr = fst (ps ! k),
      site_sourcecave = sp + sum_list (map (\<lambda>p. slot_size (snd p)) (take k ps)),
      site_callcave = cp + of_nat k * bp_entry_size E,
      site_code = take (unat (cavesize (snd (ps ! k))))
                    (call_patch E (cp + of_nat k * bp_entry_size E) (fst (ps ! k)))\<rparr>"
proof (induction E sp cp ps arbitrary: k rule: contiguous_sites.induct)
  case (1 E sp cp)
  then show ?case by simp
next
  case (2 E sp cp a bp rest)
  show ?case
  proof (cases k)
    case 0
    then show ?thesis by simp
  next
    case (Suc j)
    with "2.prems" have "j < length rest" by simp
    from "2.IH"[OF this] Suc show ?thesis by (simp add: algebra_simps)
  qed
qed

lemma call_patch_take:
  assumes "5 \<le> n" "n \<le> unat (BINHACK_BUFSIZE_MIN E)"
  shows "take n (call_patch E cp a)
           = x86_CALL_NEAR_REL32 # le32 (cp - (a + CALL_LEN)) @ replicate (n - 5) x86_NOP"
proof -
  from assms(1) obtain k where "n = 5 + k" using le_Suc_ex by blast
  then have n: "n = Suc (Suc (Suc (Suc (Suc k))))" by simp
  show ?thesis using assms(2) unfolding n call_patch_def le32_def by simp
qed


lemma len32: "LENGTH(32) = 32"
  by simp

lemma call_slot_nat:
  assumes "unat cp + n * unat sz < 2 ^ 32" and "k \<le> n"
  shows "unat (cp + of_nat k * sz :: size_t) = unat cp + k * unat sz"
proof (cases "sz = 0")
  case True
  then show ?thesis by simp
next
  case False
  then have pos: "0 < unat sz" by (simp add: unat_gt_0)
  have kb: "k * unat sz \<le> n * unat sz" using assms(2) by (rule mult_le_mono1)
  have ks: "k * unat sz < 2 ^ 32" using assms(1) kb by linarith
  have "1 \<le> unat sz" using pos by linarith
  then have "k * 1 \<le> k * unat sz" by (rule mult_le_mono2)
  then have "k < 2 ^ 32" using ks by linarith
  then have uk: "unat (of_nat k :: size_t) = k" by (rule unat_of_nat32)
  have "unat (of_nat k :: size_t) * unat sz < 2 ^ LENGTH(32)" using ks by (simp add: uk)
  then have "unat (of_nat k * sz) = unat (of_nat k :: size_t) * unat sz"
    by (rule unat_mult_lem [THEN iffD1])
  then have um: "unat (of_nat k * sz) = k * unat sz"
    by (simp only: uk)
  have "unat cp + k * unat sz < 2 ^ 32" using assms(1) kb by linarith
  then have "unat cp + unat (of_nat k * sz) < 2 ^ LENGTH(32)" by (simp only: um len32)
  then have "unat (cp + of_nat k * sz) = unat cp + unat (of_nat k * sz)"
    by (simp only: unat_add_lem)
  then show ?thesis by (simp add: um)
qed

section \<open>Nothing to render\<close>

text \<open>
  When the array pointer is null, when the count is zero, or when no description has a
  valid address and no key overruns \<open>bp_key\<close>, \<open>breakpoints_apply\<close> returns 0, the value
  that also stands for "every description became active"; the memory is untouched, no
  region is allocated and no patch is installed.
\<close>

lemma breakpoints_apply_nothing_to_render:
  assumes "breakpoints = None \<or> breakpoints = Some []
           \<or> (\<exists>bps. breakpoints = Some bps
                 \<and> (\<forall>bp\<in>set bps. \<not> bp_key_overrun (name bp))
                 \<and> (\<forall>bp\<in>set bps. valid_addrs E bp = []))"
  shows "\<exists>bps'. breakpoints_apply E breakpoints m =
           Some (Inr \<lparr>ret = 0, mem_out = m, installed = [], caves = [], breakpoints_out = bps'\<rparr>)"
proof -
  consider "breakpoints = None" | "breakpoints = Some []"
    | bps where "breakpoints = Some bps" "\<forall>bp\<in>set bps. \<not> bp_key_overrun (name bp)"
        "\<forall>bp\<in>set bps. valid_addrs E bp = []"
    using assms by auto
  then show ?thesis
  proof cases
    case 1
    then show ?thesis by (simp add: breakpoints_apply_def)
  next
    case 2
    then show ?thesis by (simp add: breakpoints_apply_def)
  next
    case 3
    from 3(3) have "patch_sites E bps = []" by (simp add: patch_sites_def)
    from breakpoints_apply_none [OF 3(2) this] 3(1) show ?thesis by simp
  qed
qed

lemma breakpoints_apply_nothing_to_render_example:
  "\<exists>bps'. breakpoints_apply example_platform (Some [example_bp_second]) (\<lambda>a. 0) =
           Some (Inr \<lparr>ret = 0, mem_out = (\<lambda>a. 0), installed = [], caves = [], breakpoints_out = bps'\<rparr>)"
  using breakpoints_apply_nothing_to_render
          [of "Some [example_bp_second]" example_platform "\<lambda>a. 0"]
  by (simp add: example_valid_addrs example_key_fits)

text \<open>
  C10: the description named \<open>codecave:a#12345\<close> has no valid address, so the claim
  promises the return value 0. Its key buffer \<open>bp_key\<close> has
  \<open>strlen("BP_") + key_len + 1 = 14\<close> bytes, \<open>key_len = 10\<close> being the length of the name
  up to its \<open>#\<close>, and \<open>strcpy\<close> copies the whole name into it, 17 bytes with the
  terminator: \<open>breakpoint_local_init\<close> overruns the stack buffer and the pass does not
  reach the early return.
\<close>

theorem breakpoints_apply_key_overrun:
  "valid_addrs example_platform example_bp_codecave = []
   \<and> bp_key_size (name example_bp_codecave) = 14
   \<and> bp_key_bytes (name example_bp_codecave) = 17
   \<and> breakpoints_apply example_platform (Some [example_bp_codecave]) (\<lambda>a. 0)
       = Some (Inl (StackBufferOverrun, []))"
proof -
  have "breakpoints_apply example_platform (Some [example_bp_codecave]) (\<lambda>a. 0)
          = Some (Inl (StackBufferOverrun, []))"
    by (rule breakpoints_apply_overrun) (simp_all add: example_key_overrun)
  then show ?thesis
    by (simp add: example_valid_addrs example_key_overrun)
qed

section \<open>Allocation failure\<close>

text \<open>
  C7, amended: \<open>breakpoints_apply\<close> does not test what \<open>VirtualAlloc\<close> returns. When
  there is a PatchSite and the allocation of the source-cave region or of the call-cave
  region (of nonzero size) gives the null pointer, the pass does not return and reports
  nothing: it ends in a fault before any patch is installed. When no key overruns
  \<open>bp_key\<close> the fault is the access violation of the first write into that region, the
  fill of the source caves or the first copy of the trampoline template.
\<close>

theorem breakpoints_apply_alloc_failure:
  assumes "length bps < 2 ^ 32"
    and "patch_sites E bps \<noteq> []"
    and "length (patch_sites E bps) < 2 ^ 32"
    and "cave_source_alloc E = 0
           \<and> sum_list (map (\<lambda>p. align16 (cavesize (snd p) + CALL_LEN)) (patch_sites E bps)) \<noteq> 0
         \<or> cave_call_alloc E = 0
           \<and> callcaves_total_size E (of_nat (length (patch_sites E bps))) \<noteq> 0"
  shows "(\<exists>f. breakpoints_apply E (Some bps) m = Some (Inl (f, [])))
       \<and> ((\<forall>bp\<in>set bps. \<not> bp_key_overrun (name bp)) \<longrightarrow>
            breakpoints_apply E (Some bps) m = Some (Inl (AccessViolation, [])))"
proof -
  have a: "breakpoints_apply E (Some bps) m = Some (Inl (AccessViolation, []))"
    if fits: "\<forall>bp\<in>set bps. \<not> bp_key_overrun (name bp)"
    using assms(4) unfolding slot_size_def [symmetric]
    by (rule breakpoints_apply_null_alloc [OF fits assms(1-3)])
  show ?thesis
  proof (cases "\<forall>bp\<in>set bps. \<not> bp_key_overrun (name bp)")
    case True
    with a show ?thesis by simp
  next
    case False
    then have "\<exists>bp\<in>set bps. bp_key_overrun (name bp)" by simp
    from breakpoints_apply_overrun [OF this assms(1)] False show ?thesis by simp
  qed
qed

theorem breakpoints_apply_alloc_failure_witness:
  "breakpoints_apply (example_platform\<lparr>cave_call_alloc := 0\<rparr>)
     (Some [example_bp_first, example_bp_second, example_bp_third]) (\<lambda>a. 0)
   = Some (Inl (AccessViolation, []))"
proof -
  have v: "valid_addrs (example_platform\<lparr>cave_call_alloc := 0\<rparr>) bp = valid_addrs example_platform bp" for bp
    by (simp add: valid_addrs_def example_platform_def)
  have p: "patch_sites (example_platform\<lparr>cave_call_alloc := 0\<rparr>) bps = patch_sites example_platform bps" for bps
    by (simp add: patch_sites_def v)
  have "(\<forall>bp\<in>set [example_bp_first, example_bp_second, example_bp_third].
            \<not> bp_key_overrun (name bp)) \<longrightarrow>
        breakpoints_apply (example_platform\<lparr>cave_call_alloc := 0\<rparr>)
          (Some [example_bp_first, example_bp_second, example_bp_third]) (\<lambda>a. 0)
        = Some (Inl (AccessViolation, []))"
    by (rule breakpoints_apply_alloc_failure [THEN conjunct2])
       (simp_all add: p example_patch_sites callcaves_total_size_def example_platform_simps)
  then show ?thesis by (simp add: example_key_fits)
qed

text \<open>
  The claim C7 as stated fails: with a null source-cave region the pass neither aborts
  with an error report nor returns; it faults.
\<close>

theorem breakpoints_apply_alloc_failure_counterexample:
  "breakpoints_apply (example_platform\<lparr>cave_source_alloc := 0\<rparr>) (Some [example_bp_first]) (\<lambda>a. 0)
   = Some (Inl (AccessViolation, []))"
proof -
  have v: "valid_addrs (example_platform\<lparr>cave_source_alloc := 0\<rparr>) bp = valid_addrs example_platform bp" for bp
    by (simp add: valid_addrs_def example_platform_def)
  have p: "patch_sites (example_platform\<lparr>cave_source_alloc := 0\<rparr>) bps = patch_sites example_platform bps" for bps
    by (simp add: patch_sites_def v)
  show ?thesis
    by (rule breakpoints_apply_null_alloc)
       (simp_all add: p example_patch_sites example_slot_size example_key_fits)
qed

section \<open>Growing the patch buffer\<close>

lemma asm_buf_grow_overflow:
  assumes gt: "cur < csize" and len: "length buf = unat cur"
    and d: "unat csize - unat cur < 2 ^ 31"
  shows "asm_buf_grow E csize (buf, cur) = Inl HeapOverflow"
proof -
  have lt: "unat cur < unat csize" using gt by (simp add: word_less_nat_alt)
  have n: "unat (cur - csize) = unat cur + 2 ^ 32 - unat csize"
    using lt by (simp add: unat_sub_if_size word_size)
  have l: "length (take (unat csize) buf @ map (heap_uninit E) [length buf ..< unat csize]) = unat csize"
    using lt len by simp
  have "\<not> unat cur + unat (cur - csize) \<le> unat csize"
    using lt d n by simp
  then show ?thesis
    using gt l by (simp add: asm_buf_grow_def buf_write_def Let_def del: length_append)
qed

lemma asm_buf_ok_length:
  "asm_buf_ok E buf \<Longrightarrow> CALL_LEN \<le> BINHACK_BUFSIZE_MIN E \<Longrightarrow> length buf = unat (BINHACK_BUFSIZE_MIN E)"
  by (auto simp: asm_buf_ok_def word_le_nat_alt unat_CALL_LEN)

lemma example_layout_large:
  "\<exists>bps'. layout_pass example_platform [example_bp_large] (0, 0, 0) = Inr (bps', [32], 32, 1, 1)
          \<and> map cavesize bps' = [17]"
  using example_key_fits(5)
  by (simp add: example_defs breakpoint_local_init_def bp_key_of_def bp_key_len_def
        eval_hackpoint_addr_def AlignUpToMultipleOf2_def CALL_LEN_def)

text \<open>
  Without growth the bytes installed at a target are the near relative call into the
  PatchSite's call-cave slot, followed by no-ops up to \<open>cavesize\<close>.
\<close>

lemma patch_sites_member:
  "p \<in> set (patch_sites E bps) \<Longrightarrow> snd p \<in> set bps \<and> valid_addrs E (snd p) \<noteq> []"
  by (auto simp: patch_sites_def)

lemma breakpoints_apply_installed_code:
  assumes h: "\<forall>bp\<in>set bps. \<not> bp_key_overrun (name bp)" "length bps < 2 ^ 32" "patch_sites E bps \<noteq> []" "length (patch_sites E bps) < 2 ^ 32"
          "cave_call_alloc E \<noteq> 0" "cave_source_alloc E \<noteq> 0"
          "unat (cave_call_alloc E) + length (patch_sites E bps) * unat (bp_entry_size E) < 2 ^ 32"
          "CALL_LEN \<le> BINHACK_BUFSIZE_MIN E" "unat (BINHACK_BUFSIZE_MIN E) + 20 < 2 ^ 32"
          "\<forall>bp\<in>set bps. valid_addrs E bp \<noteq> [] \<longrightarrow> cavesize bp \<le> BINHACK_BUFSIZE_MIN E"
    and ge: "\<forall>bp\<in>set bps. valid_addrs E bp \<noteq> [] \<longrightarrow> CALL_LEN \<le> cavesize bp"
  shows "\<exists>r. breakpoints_apply E (Some bps) m = Some (Inr r)
           \<and> (\<forall>k<length (patch_sites E bps).
                 site_code (installed r ! k)
                   = x86_CALL_NEAR_REL32
                     # le32 (site_callcave (installed r ! k) - (site_addr (installed r ! k) + CALL_LEN))
                     @ replicate (unat (cavesize (snd (patch_sites E bps ! k))) - 5) x86_NOP)"
proof -
  from breakpoints_apply_ok [OF h, of m] obtain r where
    r: "breakpoints_apply E (Some bps) m = Some (Inr r)"
    and i: "installed r = contiguous_sites E (cave_source_alloc E) (cave_call_alloc E) (patch_sites E bps)"
    by force
  have "site_code (installed r ! k)
          = x86_CALL_NEAR_REL32
            # le32 (site_callcave (installed r ! k) - (site_addr (installed r ! k) + CALL_LEN))
            @ replicate (unat (cavesize (snd (patch_sites E bps ! k))) - 5) x86_NOP"
    if k: "k < length (patch_sites E bps)" for k
  proof -
    let ?p = "patch_sites E bps ! k"
    have "?p \<in> set (patch_sites E bps)" using k by simp
    from patch_sites_member [OF this] h(10) ge have
      "cavesize (snd ?p) \<le> BINHACK_BUFSIZE_MIN E" "CALL_LEN \<le> cavesize (snd ?p)"
      by blast+
    then have "5 \<le> unat (cavesize (snd ?p))" "unat (cavesize (snd ?p)) \<le> unat (BINHACK_BUFSIZE_MIN E)"
      by (simp_all add: word_le_nat_alt unat_CALL_LEN)
    from call_patch_take [OF this] show ?thesis
      by (simp add: i contiguous_sites_nth [OF k])
  qed
  with r show ?thesis by blast
qed

text \<open>
  C6: with an initial patch buffer of 16 bytes, one description whose cave has 17 bytes
  and whose address is valid makes the buffer grow. The \<open>memset\<close> that should pad the
  new byte with a no-op is given the length \<open>16 - 17\<close> in \<open>size_t\<close>, that is
  \<open>2^32 - 1\<close>, and runs over the end of the 17-byte block: the pass ends in a heap
  overflow and installs nothing, where the claim promises a call followed by no-ops.
\<close>

theorem breakpoints_apply_grow_overflow:
  "breakpoints_apply example_platform (Some [example_bp_large]) (\<lambda>a. 0) = Some (Inl (HeapOverflow, []))"
proof -
  obtain c where lp: "layout_pass example_platform [example_bp_large] (0, 0, 0) = Inr ([c], [32], 32, 1, 1)"
    and c: "cavesize c = 17"
    using example_layout_large by (auto simp: map_eq_Cons_conv)
  have B: "CALL_LEN \<le> BINHACK_BUFSIZE_MIN example_platform"
    by (simp add: example_platform_simps CALL_LEN_def)
  obtain buf where buf: "asm_buf_init example_platform = Inr buf" and ok: "asm_buf_ok example_platform buf"
    using asm_buf_init_ok[OF B] by blast
  have len: "length buf = unat (16 :: size_t)"
    using asm_buf_ok_length[OF ok B] by (simp add: example_platform_simps)
  have g: "asm_buf_grow example_platform 17 (buf, 16) = Inl HeapOverflow"
    by (rule asm_buf_grow_overflow [OF _ len]) simp_all
  obtain m2 where fill:
    "callcave_fill_loop example_platform (memset (\<lambda>a. 0) (cave_source_alloc example_platform) x86_INT3 32)
       (cave_call_alloc example_platform)
       (cave_call_alloc example_platform + callcaves_total_size example_platform 1) = Some (Inr m2)"
    using callcave_fill_loop_returns [of example_platform "cave_call_alloc example_platform" 1]
    by (auto simp: callcaves_total_size_def example_platform_simps)
  have cnt: "(of_nat (length [example_bp_large]) :: size_t) \<noteq> 0" by simp
  have nn: "\<not> (cave_source_alloc example_platform = 0 \<and> (32 :: size_t) \<noteq> 0)"
    by (simp add: example_platform_simps)
  show ?thesis
    unfolding breakpoints_apply_layout [OF lp cnt one_neq_zero nn] fill
    by (simp add: buf c g example_platform_simps)
qed

section \<open>The return value\<close>

text \<open>
  C8, amended: when no key overruns \<open>bp_key\<close>, at least one description has a valid
  address, both regions are allocated, the call-cave region lies within the address space
  and no active description has a cave larger than the initial patch buffer,
  \<open>breakpoints_apply\<close> returns the input count minus the number of descriptions that have
  at least one valid address, and generates one source-cave slot and one call-cave slot
  per PatchSite. For three descriptions of which the second has only invalid addresses
  and the others one valid address each, this is the return value 1 with two slots in
  each region.
\<close>

theorem breakpoints_apply_return_count:
  assumes "\<forall>bp\<in>set bps. \<not> bp_key_overrun (name bp)"
    and "length bps < 2 ^ 32"
    and "patch_sites E bps \<noteq> []"
    and "length (patch_sites E bps) < 2 ^ 32"
    and "cave_call_alloc E \<noteq> 0" and "cave_source_alloc E \<noteq> 0"
    and "unat (cave_call_alloc E) + length (patch_sites E bps) * unat (bp_entry_size E) < 2 ^ 32"
    and "CALL_LEN \<le> BINHACK_BUFSIZE_MIN E" and "unat (BINHACK_BUFSIZE_MIN E) + 20 < 2 ^ 32"
    and "\<forall>bp\<in>set bps. valid_addrs E bp \<noteq> [] \<longrightarrow> cavesize bp \<le> BINHACK_BUFSIZE_MIN E"
  shows "\<exists>r. breakpoints_apply E (Some bps) m = Some (Inr r)
           \<and> ret r = of_nat (length bps) - of_nat (length (filter (\<lambda>bp. valid_addrs E bp \<noteq> []) bps))
           \<and> length (installed r) = length (patch_sites E bps)
           \<and> caves r = [(cave_source_alloc E,
                          sum_list (map (\<lambda>p. align16 (cavesize (snd p) + CALL_LEN)) (patch_sites E bps))),
                         (cave_call_alloc E, of_nat (length (patch_sites E bps)) * bp_entry_size E)]"
proof -
  from breakpoints_apply_ok [OF assms, of m] obtain m' bps' where
    "breakpoints_apply E (Some bps) m =
           Some (Inr \<lparr>ret = of_nat (length bps)
                          - of_nat (length (filter (\<lambda>bp. valid_addrs E bp \<noteq> []) bps)),
                      mem_out = m',
                      installed = contiguous_sites E (cave_source_alloc E) (cave_call_alloc E)
                                    (patch_sites E bps),
                      caves = [(cave_source_alloc E,
                                sum_list (map (\<lambda>p. slot_size (snd p)) (patch_sites E bps))),
                               (cave_call_alloc E,
                                of_nat (length (patch_sites E bps)) * bp_entry_size E)],
                      breakpoints_out = bps'\<rparr>)"
    by blast
  then show ?thesis
    by (simp add: contiguous_sites_length slot_size_def)
qed

theorem breakpoints_apply_return_count_witness:
  "\<exists>r. breakpoints_apply example_platform
          (Some [example_bp_first, example_bp_second, example_bp_third]) (\<lambda>a. 0) = Some (Inr r)
       \<and> ret r = 1 \<and> length (installed r) = 2
       \<and> caves r = [(0x10000, 32), (0x20000, 64)]"
proof -
  have "\<exists>r. breakpoints_apply example_platform
          (Some [example_bp_first, example_bp_second, example_bp_third]) (\<lambda>a. 0) = Some (Inr r)
       \<and> ret r = of_nat (length [example_bp_first, example_bp_second, example_bp_third])
                 - of_nat (length (filter (\<lambda>bp. valid_addrs example_platform bp \<noteq> [])
                                     [example_bp_first, example_bp_second, example_bp_third]))
       \<and> length (installed r)
           = length (patch_sites example_platform [example_bp_first, example_bp_second, example_bp_third])
       \<and> caves r = [(cave_source_alloc example_platform,
                      sum_list (map (\<lambda>p. align16 (cavesize (snd p) + CALL_LEN))
                        (patch_sites example_platform [example_bp_first, example_bp_second, example_bp_third]))),
                     (cave_call_alloc example_platform,
                      of_nat (length (patch_sites example_platform
                                        [example_bp_first, example_bp_second, example_bp_third]))
                        * bp_entry_size example_platform)]"
    by (rule breakpoints_apply_return_count)
       (simp_all add: example_patch_sites example_platform_simps example_valid_addrs
          example_cavesize example_key_fits CALL_LEN_def)
  then show ?thesis
    using example_slot_size
    by (simp add: example_valid_addrs example_patch_sites example_platform_simps slot_size_def
          numeral_2_eq_2)
qed

text \<open>
  The claim C8 as stated fails: for two descriptions without any valid address the input
  count minus the number of active descriptions is 2, and \<open>breakpoints_apply\<close> returns 0.
\<close>

theorem breakpoints_apply_return_count_counterexample:
  "(case breakpoints_apply example_platform (Some [example_bp_unregistered, example_bp_second]) (\<lambda>a. 0) of
      Some (Inr r) \<Rightarrow> ret r = 0 | _ \<Rightarrow> False)
   \<and> (of_nat (length [example_bp_unregistered, example_bp_second])
        - of_nat (length (filter (\<lambda>bp. valid_addrs example_platform bp \<noteq> [])
                            [example_bp_unregistered, example_bp_second])) :: 32 word) = 2"
proof -
  obtain bps' where
    "breakpoints_apply example_platform (Some [example_bp_unregistered, example_bp_second]) (\<lambda>a. 0) =
      Some (Inr \<lparr>ret = 0, mem_out = (\<lambda>a. 0), installed = [], caves = [], breakpoints_out = bps'\<rparr>)"
    using breakpoints_apply_none [OF _ example_patch_sites(4)] by (auto simp: example_key_fits)
  then show ?thesis by (simp add: example_valid_addrs)
qed

section \<open>Region sizes and slot layout\<close>

text \<open>
  C5, amended: a pair of an address and a description is valid when the description's
  handler is found in the registry, the address is not null and the region check
  succeeds for \<open>cavesize\<close> bytes. For every input list in which no key overruns
  \<open>bp_key\<close> the first pass computes the size of the source-cave region as the sum over
  the valid pairs of \<open>align16 (cavesize + CALL_LEN)\<close> and the size of the call-cave region
  as the number of valid pairs times \<open>bp_entry_size\<close>; null addresses are passed over.
  When the pass completes and both regions lie within the address space, the two regions
  have these sizes, there is one PatchSite per valid pair, in order, and the source-cave
  slot of each starts at the region's base plus the sum of \<open>align16 (cavesize + CALL_LEN)\<close>
  over the PatchSites before it, as a number and not only modulo \<open>2^32\<close>: every slot
  ends where the next one starts and before the end of the region, so that no two slots
  overlap and there is no gap. The call-cave slot of a PatchSite starts at the base of
  the call-cave region plus its index times \<open>bp_entry_size\<close>.
\<close>

theorem breakpoints_apply_layout_sizes:
  assumes fits: "\<forall>bp\<in>set bps. \<not> bp_key_overrun (name bp)"
  shows "\<exists>bps' breakpoint_total_size valid_breakpoint_count.
           layout_pass E bps (0, 0, 0)
             = Inr (bps', breakpoint_total_size,
                    sum_list (map (\<lambda>p. align16 (cavesize (snd p) + CALL_LEN)) (patch_sites E bps)),
                    valid_breakpoint_count,
                    of_nat (length (patch_sites E bps)))
         \<and> callcaves_total_size E (of_nat (length (patch_sites E bps)))
             = of_nat (length (patch_sites E bps)) * bp_entry_size E
         \<and> (length bps < 2 ^ 32 \<and> patch_sites E bps \<noteq> [] \<and> length (patch_sites E bps) < 2 ^ 32
              \<and> cave_call_alloc E \<noteq> 0 \<and> cave_source_alloc E \<noteq> 0
              \<and> unat (cave_call_alloc E) + length (patch_sites E bps) * unat (bp_entry_size E) < 2 ^ 32
              \<and> unat (cave_source_alloc E)
                  + sum_list (map (\<lambda>p. unat (align16 (cavesize (snd p) + CALL_LEN))) (patch_sites E bps))
                  < 2 ^ 32
              \<and> CALL_LEN \<le> BINHACK_BUFSIZE_MIN E \<and> unat (BINHACK_BUFSIZE_MIN E) + 20 < 2 ^ 32
              \<and> (\<forall>bp\<in>set bps. valid_addrs E bp \<noteq> [] \<longrightarrow> cavesize bp \<le> BINHACK_BUFSIZE_MIN E)
            \<longrightarrow>
              (\<exists>r. breakpoints_apply E (Some bps) m = Some (Inr r)
                 \<and> caves r
                     = [(cave_source_alloc E,
                         sum_list (map (\<lambda>p. align16 (cavesize (snd p) + CALL_LEN)) (patch_sites E bps))),
                        (cave_call_alloc E, callcaves_total_size E (of_nat (length (patch_sites E bps))))]
                 \<and> length (installed r) = length (patch_sites E bps)
                 \<and> (\<forall>k<length (patch_sites E bps).
                       site_addr (installed r ! k) = fst (patch_sites E bps ! k)
                     \<and> site_sourcecave (installed r ! k)
                         = cave_source_alloc E
                           + sum_list (map (\<lambda>p. align16 (cavesize (snd p) + CALL_LEN))
                                        (take k (patch_sites E bps)))
                     \<and> unat (site_sourcecave (installed r ! k))
                         = unat (cave_source_alloc E)
                           + sum_list (map (\<lambda>p. unat (align16 (cavesize (snd p) + CALL_LEN)))
                                        (take k (patch_sites E bps)))
                     \<and> unat (site_sourcecave (installed r ! k))
                           + unat (align16 (cavesize (snd (patch_sites E bps ! k)) + CALL_LEN))
                         \<le> unat (cave_source_alloc E)
                           + sum_list (map (\<lambda>p. unat (align16 (cavesize (snd p) + CALL_LEN)))
                                        (patch_sites E bps))
                     \<and> site_callcave (installed r ! k)
                         = cave_call_alloc E + of_nat k * bp_entry_size E
                     \<and> unat (site_callcave (installed r ! k))
                         = unat (cave_call_alloc E) + k * unat (bp_entry_size E))
                 \<and> (\<forall>k. Suc k < length (patch_sites E bps) \<longrightarrow>
                       unat (site_sourcecave (installed r ! Suc k))
                         = unat (site_sourcecave (installed r ! k))
                           + unat (align16 (cavesize (snd (patch_sites E bps ! k)) + CALL_LEN)))
                 \<and> (\<forall>j k. j < k \<and> k < length (patch_sites E bps) \<longrightarrow>
                       unat (site_sourcecave (installed r ! j))
                           + unat (align16 (cavesize (snd (patch_sites E bps ! j)) + CALL_LEN))
                         \<le> unat (site_sourcecave (installed r ! k)))))"
proof -
  let ?ps = "patch_sites E bps"
  let ?g = "\<lambda>p. align16 (cavesize (snd p) + CALL_LEN)"
  let ?f = "\<lambda>p. unat (align16 (cavesize (snd p) + CALL_LEN))"
  have sz: "(\<lambda>p. slot_size (snd p)) = ?g"
    by (simp add: slot_size_def)
  obtain bps' sizes t vb tv where lp: "layout_pass E bps (0, 0, 0) = Inr (bps', sizes, t, vb, tv)"
    using layout_pass_returns [OF fits, of E "(0, 0, 0)"] by auto
  from layout_pass_eq [OF lp] have
    t: "t = sum_list (map ?g ?ps)" and tv: "tv = of_nat (length ?ps)"
    by (simp_all add: sz)
  have first: "\<exists>bps' breakpoint_total_size valid_breakpoint_count.
           layout_pass E bps (0, 0, 0)
             = Inr (bps', breakpoint_total_size, sum_list (map ?g ?ps), valid_breakpoint_count,
                    of_nat (length ?ps))"
    using lp t tv by blast
  have run: "\<exists>r. breakpoints_apply E (Some bps) m = Some (Inr r)
                 \<and> caves r = [(cave_source_alloc E, sum_list (map ?g ?ps)),
                               (cave_call_alloc E, callcaves_total_size E (of_nat (length ?ps)))]
                 \<and> length (installed r) = length ?ps
                 \<and> (\<forall>k<length ?ps.
                       site_addr (installed r ! k) = fst (?ps ! k)
                     \<and> site_sourcecave (installed r ! k)
                         = cave_source_alloc E + sum_list (map ?g (take k ?ps))
                     \<and> unat (site_sourcecave (installed r ! k))
                         = unat (cave_source_alloc E) + sum_list (map ?f (take k ?ps))
                     \<and> unat (site_sourcecave (installed r ! k)) + ?f (?ps ! k)
                         \<le> unat (cave_source_alloc E) + sum_list (map ?f ?ps)
                     \<and> site_callcave (installed r ! k)
                         = cave_call_alloc E + of_nat k * bp_entry_size E
                     \<and> unat (site_callcave (installed r ! k))
                         = unat (cave_call_alloc E) + k * unat (bp_entry_size E))
                 \<and> (\<forall>k. Suc k < length ?ps \<longrightarrow>
                       unat (site_sourcecave (installed r ! Suc k))
                         = unat (site_sourcecave (installed r ! k)) + ?f (?ps ! k))
                 \<and> (\<forall>j k. j < k \<and> k < length ?ps \<longrightarrow>
                       unat (site_sourcecave (installed r ! j)) + ?f (?ps ! j)
                         \<le> unat (site_sourcecave (installed r ! k)))"
    if h: "length bps < 2 ^ 32" "?ps \<noteq> []" "length ?ps < 2 ^ 32"
          "cave_call_alloc E \<noteq> 0" "cave_source_alloc E \<noteq> 0"
          "unat (cave_call_alloc E) + length ?ps * unat (bp_entry_size E) < 2 ^ 32"
          "CALL_LEN \<le> BINHACK_BUFSIZE_MIN E" "unat (BINHACK_BUFSIZE_MIN E) + 20 < 2 ^ 32"
          "\<forall>bp\<in>set bps. valid_addrs E bp \<noteq> [] \<longrightarrow> cavesize bp \<le> BINHACK_BUFSIZE_MIN E"
      and src: "unat (cave_source_alloc E) + sum_list (map ?f ?ps) < 2 ^ 32"
  proof -
    from breakpoints_apply_ok [OF fits h, of m] obtain r where
      r: "breakpoints_apply E (Some bps) m = Some (Inr r)"
      and cv: "caves r = [(cave_source_alloc E, sum_list (map (\<lambda>p. slot_size (snd p)) ?ps)),
                          (cave_call_alloc E, of_nat (length ?ps) * bp_entry_size E)]"
      and ins: "installed r = contiguous_sites E (cave_source_alloc E) (cave_call_alloc E) ?ps"
      by force
    have sa: "site_addr (installed r ! k) = fst (?ps ! k)"
      and sw: "site_sourcecave (installed r ! k) = cave_source_alloc E + sum_list (map ?g (take k ?ps))"
      and cw: "site_callcave (installed r ! k) = cave_call_alloc E + of_nat k * bp_entry_size E"
      if "k < length ?ps" for k
      using that by (simp_all add: ins contiguous_sites_nth sz)
    have sn: "unat (site_sourcecave (installed r ! k))
                = unat (cave_source_alloc E) + sum_list (map ?f (take k ?ps))"
      if k: "k < length ?ps" for k
      unfolding sw [OF k] using src by (rule slot_start_nat)
    have cn: "unat (site_callcave (installed r ! k))
                = unat (cave_call_alloc E) + k * unat (bp_entry_size E)"
      if k: "k < length ?ps" for k
    proof -
      have "k \<le> length ?ps" using k by linarith
      with h(6) show ?thesis unfolding cw [OF k] by (rule call_slot_nat)
    qed
    have within: "unat (site_sourcecave (installed r ! k)) + ?f (?ps ! k)
                    \<le> unat (cave_source_alloc E) + sum_list (map ?f ?ps)"
      if k: "k < length ?ps" for k
      unfolding sn [OF k] using k by (rule slots_within_nat)
    have nogap: "unat (site_sourcecave (installed r ! Suc k))
                   = unat (site_sourcecave (installed r ! k)) + ?f (?ps ! k)"
      if k: "Suc k < length ?ps" for k
    proof -
      have k': "k < length ?ps" using k by simp
      show ?thesis
        unfolding sn [OF k] sn [OF k'] by (simp add: sum_take_Suc [OF k'])
    qed
    have disj: "unat (site_sourcecave (installed r ! j)) + ?f (?ps ! j)
                  \<le> unat (site_sourcecave (installed r ! k))"
      if jk: "j < k" "k < length ?ps" for j k
    proof -
      have j: "j < length ?ps" using jk by simp
      show ?thesis
        unfolding sn [OF j] sn [OF jk(2)] using jk by (rule slots_disjoint_nat)
    qed
    have cv': "caves r = [(cave_source_alloc E, sum_list (map ?g ?ps)),
                          (cave_call_alloc E, callcaves_total_size E (of_nat (length ?ps)))]"
      by (simp add: cv sz callcaves_total_size_def)
    have len: "length (installed r) = length ?ps"
      by (simp add: ins contiguous_sites_length)
    show ?thesis
      using r cv' len sa sw sn within cw cn nogap disj by blast
  qed
  have cc: "callcaves_total_size E (of_nat (length ?ps)) = of_nat (length ?ps) * bp_entry_size E"
    by (simp add: callcaves_total_size_def)
  show ?thesis
    using first cc run by blast
qed

theorem breakpoints_apply_layout_sizes_witness:
  "\<exists>r. breakpoints_apply example_platform
          (Some [example_bp_first, example_bp_second, example_bp_third]) (\<lambda>a. 0) = Some (Inr r)
       \<and> caves r = [(0x10000, 32), (0x20000, 64)]
       \<and> unat (site_sourcecave (installed r ! 0)) = 0x10000
       \<and> unat (site_sourcecave (installed r ! 1)) = 0x10010
       \<and> site_callcave (installed r ! 0) = 0x20000
       \<and> site_callcave (installed r ! 1) = 0x20020"
proof -
  let ?bps = "[example_bp_first, example_bp_second, example_bp_third]"
  have fits: "\<forall>bp\<in>set ?bps. \<not> bp_key_overrun (name bp)"
    by (simp add: example_key_fits)
  note th = breakpoints_apply_layout_sizes [OF fits, of example_platform "\<lambda>a. 0"]
  have sl: "align16 (cavesize example_bp_first + CALL_LEN) = 16"
           "align16 (cavesize example_bp_third + CALL_LEN) = 16"
    using example_slot_size by (simp_all add: slot_size_def)
  let ?E = example_platform
  have h: "length ?bps < 2 ^ 32 \<and> patch_sites ?E ?bps \<noteq> [] \<and> length (patch_sites ?E ?bps) < 2 ^ 32
              \<and> cave_call_alloc ?E \<noteq> 0 \<and> cave_source_alloc ?E \<noteq> 0
              \<and> unat (cave_call_alloc ?E) + length (patch_sites ?E ?bps) * unat (bp_entry_size ?E) < 2 ^ 32
              \<and> unat (cave_source_alloc ?E)
                  + sum_list (map (\<lambda>p. unat (align16 (cavesize (snd p) + CALL_LEN))) (patch_sites ?E ?bps))
                  < 2 ^ 32
              \<and> CALL_LEN \<le> BINHACK_BUFSIZE_MIN ?E \<and> unat (BINHACK_BUFSIZE_MIN ?E) + 20 < 2 ^ 32
              \<and> (\<forall>bp\<in>set ?bps. valid_addrs ?E bp \<noteq> [] \<longrightarrow> cavesize bp \<le> BINHACK_BUFSIZE_MIN ?E)"
    by (simp add: example_patch_sites example_platform_simps example_valid_addrs
          example_cavesize CALL_LEN_def align16_def AlignUpToMultipleOf2_def)
  from th h obtain r where
    r: "breakpoints_apply example_platform (Some ?bps) (\<lambda>a. 0) = Some (Inr r)"
    and c: "caves r
              = [(cave_source_alloc example_platform,
                  sum_list (map (\<lambda>p. align16 (cavesize (snd p) + CALL_LEN))
                              (patch_sites example_platform ?bps))),
                 (cave_call_alloc example_platform,
                  callcaves_total_size example_platform
                    (of_nat (length (patch_sites example_platform ?bps))))]"
    and s: "\<forall>k<length (patch_sites example_platform ?bps).
              unat (site_sourcecave (installed r ! k))
                = unat (cave_source_alloc example_platform)
                  + sum_list (map (\<lambda>p. unat (align16 (cavesize (snd p) + CALL_LEN)))
                               (take k (patch_sites example_platform ?bps)))
            \<and> site_callcave (installed r ! k)
                = cave_call_alloc example_platform + of_nat k * bp_entry_size example_platform"
    by blast
  from s [rule_format, of 0] s [rule_format, of 1] have
    "unat (site_sourcecave (installed r ! 0)) = 0x10000
     \<and> unat (site_sourcecave (installed r ! 1)) = 0x10010
     \<and> site_callcave (installed r ! 0) = 0x20000
     \<and> site_callcave (installed r ! 1) = 0x20020"
    by (simp add: example_patch_sites example_platform_simps sl)
  with r c show ?thesis
    by (simp add: example_patch_sites example_platform_simps sl callcaves_total_size_def)
qed

text \<open>
  The claim C5 as stated fails: a description whose handler is not registered has an
  address that is not null and passes the region check, and the first pass counts no
  byte for it.
\<close>

theorem layout_pass_unregistered_counterexample:
  "(case layout_pass example_platform [example_bp_unregistered] (0, 0, 0) of
      Inr (bps', breakpoint_total_size, sourcecaves_total_size, st) \<Rightarrow> sourcecaves_total_size = 0
    | Inl e \<Rightarrow> False)
   \<and> sum_list (map (\<lambda>p. align16 (cavesize (snd p) + CALL_LEN))
        (checked_sites example_platform [example_bp_unregistered])) = 16"
  using example_key_fits(4)
  by (simp add: example_defs breakpoint_local_init_def bp_key_of_def bp_key_len_def
        checked_sites_def checked_addrs_def eval_hackpoint_addr_def align16_def
        AlignUpToMultipleOf2_def CALL_LEN_def)

end
